theory Spec2Isabelle
  imports Complex_Main "HOL-Library.Sublist" "HOL-Library.Word" "HOL-Library.Log_Nat"
begin

section \<open>Python strings and paths\<close>

text \<open>
  The program is modelled as it runs on a POSIX system. A Python \<open>str\<close> is modelled as
  a \<open>string\<close> holding its UTF-8 bytes. The program compares lower-cased strings with
  ASCII literals only (\<open>endswith\<close>, \<open>in\<close>); on UTF-8 text these tests agree with the
  tests on code points, because no byte of a multi-byte character is an ASCII byte. Two
  characters outside ASCII lower-case to text with an ASCII letter: U+212A to \<open>k\<close>, which
  is in none of the literals \<open>.html\<close>, \<open>.htm\<close>, \<open>.zip\<close>, \<open>poster\<close>, \<open>index\<close>, and U+0130
  to \<open>i\<close> followed by U+0307, where no literal can go on. \<open>lower\<close> therefore maps
  \<open>A\<close>..\<open>Z\<close> and leaves every other byte.
\<close>

definition lower_char :: "char \<Rightarrow> char" where
  "lower_char c =
     (let n = (of_char c :: nat) in if 65 \<le> n \<and> n \<le> 90 then char_of (n + 32) else c)"

definition lower :: "string \<Rightarrow> string" where
  "lower s = map lower_char s"

text \<open>\<open>s.endswith(suf)\<close> and \<open>s.endswith((a, b))\<close>.\<close>

definition endswith :: "string \<Rightarrow> string \<Rightarrow> bool" where
  "endswith s suf = (length suf \<le> length s \<and> drop (length s - length suf) s = suf)"

definition endswith_any :: "string \<Rightarrow> string list \<Rightarrow> bool" where
  "endswith_any s sufs = list_ex (endswith s) sufs"

text \<open>\<open>sub in s\<close> on strings.\<close>

definition startswith :: "string \<Rightarrow> string \<Rightarrow> bool" where
  "startswith s pre = (take (length pre) s = pre)"

primrec contains :: "string \<Rightarrow> string \<Rightarrow> bool" where
  "contains sub [] = (sub = [])"
| "contains sub (c # cs) = (startswith (c # cs) sub \<or> contains sub cs)"

text \<open>
  The characters of a UTF-8 text: a byte that is not a continuation byte (0x80..0xBF)
  with the continuation bytes that follow it.
\<close>

definition is_cont :: "char \<Rightarrow> bool" where
  "is_cont c = (let n = (of_char c :: nat) in 128 \<le> n \<and> n < 192)"

function utf8_chars :: "string \<Rightarrow> string list" where
  "utf8_chars [] = []"
| "utf8_chars (c # cs) = (c # takeWhile is_cont cs) # utf8_chars (dropWhile is_cont cs)"
  by pat_completeness auto
termination
  by (relation "measure length") (auto simp: length_dropWhile_le le_imp_less_Suc)

text \<open>
  The characters \<open>str.isspace\<close> holds of, which \<open>str.strip()\<close> removes, in UTF-8: U+0009
  to U+000D, U+001C to U+001F, U+0020, U+0085, U+00A0, U+1680, U+2000 to U+200A, U+2028,
  U+2029, U+202F, U+205F and U+3000.
\<close>

definition whitespace :: "string list" where
  "whitespace =
     map (\<lambda>c. [c]) [CHR 0x09, CHR 0x0A, CHR 0x0B, CHR 0x0C, CHR 0x0D,
                   CHR 0x1C, CHR 0x1D, CHR 0x1E, CHR 0x1F, CHR 0x20] @
     [[CHR 0xC2, CHR 0x85], [CHR 0xC2, CHR 0xA0], [CHR 0xE1, CHR 0x9A, CHR 0x80]] @
     map (\<lambda>c. [CHR 0xE2, CHR 0x80, c])
       [CHR 0x80, CHR 0x81, CHR 0x82, CHR 0x83, CHR 0x84, CHR 0x85, CHR 0x86, CHR 0x87,
        CHR 0x88, CHR 0x89, CHR 0x8A, CHR 0xA8, CHR 0xA9, CHR 0xAF] @
     [[CHR 0xE2, CHR 0x81, CHR 0x9F], [CHR 0xE3, CHR 0x80, CHR 0x80]]"

definition is_space :: "string \<Rightarrow> bool" where
  "is_space ch = List.member whitespace ch"

text \<open>\<open>s.strip()\<close>: the leading and the trailing whitespace characters are removed.\<close>

definition strip :: "string \<Rightarrow> string" where
  "strip s = concat (rev (dropWhile is_space (rev (dropWhile is_space (utf8_chars s)))))"

text \<open>
  A path below the scratch directory is the list of its components, outermost first;
  \<open>f.name\<close> is the last component and \<open>f.parent == temp_dir\<close> holds when there is
  exactly one.
\<close>

type_synonym relpath = "string list"

definition name_of :: "relpath \<Rightarrow> string" where
  "name_of f = (case rev f of [] \<Rightarrow> [] | n # _ \<Rightarrow> n)"

definition at_root :: "relpath \<Rightarrow> bool" where
  "at_root f = (length f = 1)"

fun join_path :: "string \<Rightarrow> relpath \<Rightarrow> string" where
  "join_path d [] = d"
| "join_path d (c # cs) = join_path (d @ ''/'' @ c) cs"

section \<open>The resource locator: \<open>extract_zip_to_temp\<close>\<close>

text \<open>
  The extracted tree is the list of the entries below the scratch directory, regular
  files and directories, in the order a recursive walk meets them.
  \<open>temp_dir.rglob("*.html")\<close> walks the tree and yields every entry whose name matches
  the pattern: the match is on the name alone, whatever the entry is, and is the
  case-sensitive one of a POSIX system. Both walks of the same tree meet the entries in
  the same order.
\<close>

datatype kind = File | Directory

type_synonym entry = "relpath \<times> kind"

definition rglob :: "entry list \<Rightarrow> string \<Rightarrow> relpath list" where
  "rglob entries ext = map fst (filter (\<lambda>en. endswith (name_of (fst en)) ext) entries)"

definition html_files :: "entry list \<Rightarrow> relpath list" where
  "html_files entries = rglob entries ''.html'' @ rglob entries ''.htm''"

definition has_keyword :: "relpath \<Rightarrow> bool" where
  "has_keyword f =
     (contains ''poster'' (lower (name_of f)) \<or> contains ''index'' (lower (name_of f)))"

text \<open>
  The selection loop. \<open>html_file\<close> is the loop's variable: a root-level file is taken and
  the loop is left; a file with a keyword in its name replaces the choice and the loop
  goes on.
\<close>

fun select_loop :: "relpath list \<Rightarrow> relpath \<Rightarrow> relpath" where
  "select_loop [] html_file = html_file"
| "select_loop (f # fs) html_file =
     (if at_root f then f
      else if has_keyword f then select_loop fs f
      else select_loop fs html_file)"

section \<open>The browser\<close>

text \<open>
  The awaited calls of the render, by the arguments the source passes. The browser is
  outside the program: what each call does is given by the environment, as a function of
  the calls made so far in the session.
\<close>

datatype step =
    Start_playwright
  | Launch bool
  | New_context int int rat
  | New_page
  | Goto string string
  | Add_style_tag string
  | Wait_for_timeout int
  | Evaluate string
  | Query_selector string
  | Element_screenshot string bool
  | Page_screenshot string bool
  | Close_browser
  | Stop_playwright

datatype error =
    ValueError
  | BadZipFile
  | FileExistsError
  | OSError
  | UnidentifiedImageError
  | OverflowError
  | PlaywrightError step

type_synonym bytes = "8 word list"

text \<open>
  Everything the program asks of its surroundings: the file system of the user
  (\<open>expanduser\<close>, \<open>path_exists\<close>, \<open>resolve\<close>), the browser (\<open>raises tr s\<close>: call \<open>s\<close>
  raises after the calls \<open>tr\<close>; \<open>matches tr sel\<close>: \<open>query_selector\<close> returned an element;
  \<open>screenshot tr\<close>: the bytes of the capture that ends \<open>tr\<close>), the archive
  (\<open>extractall\<close>: the entries below the scratch directory after extraction, in the order
  of the recursive walk, or the error of a broken archive), the names \<open>tempfile\<close> tries
  (\<open>tmp_root\<close>, \<open>randoms\<close>), the image decoder (\<open>pil_size\<close>) and the failures of writing
  and of removing a tree.
\<close>

record env =
  expanduser :: "string \<Rightarrow> string"
  path_exists :: "string \<Rightarrow> bool"
  resolve :: "string \<Rightarrow> string"
  raises :: "step list \<Rightarrow> step \<Rightarrow> bool"
  matches :: "step list \<Rightarrow> string \<Rightarrow> bool"
  screenshot :: "step list \<Rightarrow> bytes"
  extractall :: "string \<Rightarrow> error + entry list"
  tmp_root :: string
  randoms :: "string list"
  write_fails :: "string \<Rightarrow> bool"
  pil_size :: "bytes \<Rightarrow> error + int \<times> int"
  rmtree_fails :: "string \<Rightarrow> bool"

text \<open>
  What the program changes: the scratch directories that exist, the temporary files and
  their contents, and the calls made to the browser so far.
\<close>

record world =
  dirs :: "string set"
  files :: "string \<rightharpoonup> bytes"
  browser_log :: "step list"

section \<open>Python floats\<close>

text \<open>
  A finite float is the rational number it stands for. \<open>nearest_double x\<close> is the IEEE 754
  double next to \<open>x\<close>, ties going to the even significand: the significand has 53 bits
  and the unit in the last place is at least \<open>2\<^sup>-\<^sup>1\<^sup>0\<^sup>7\<^sup>4\<close>.
\<close>

definition pow2 :: "int \<Rightarrow> rat" where
  "pow2 k = (if 0 \<le> k then 2 ^ nat k else 1 / 2 ^ nat (- k))"

text \<open>The integer part of the binary logarithm of a positive rational.\<close>

definition ilog2 :: "rat \<Rightarrow> int" where
  "ilog2 x =
     (case quotient_of x of
        (p, q) \<Rightarrow> let k = bitlen p - bitlen q in if pow2 k \<le> x then k else k - 1)"

definition round_half_even :: "rat \<Rightarrow> int" where
  "round_half_even x =
     (let f = \<lfloor>x\<rfloor>; d = x - of_int f in
      if d < 1 / 2 then f else if 1 / 2 < d then f + 1 else if even f then f else f + 1)"

definition nearest_double :: "rat \<Rightarrow> rat" where
  "nearest_double x =
     (if x = 0 then 0
      else let e = max (ilog2 \<bar>x\<bar> - 52) (- 1074);
               m = round_half_even (\<bar>x\<bar> / pow2 e)
           in sgn x * of_int m * pow2 e)"

text \<open>
  The conversion of an \<open>int\<close> to a float raises \<open>OverflowError\<close> when the integer rounds
  to \<open>2\<^sup>1\<^sup>0\<^sup>2\<^sup>4\<close>, which is no double: from \<open>2\<^sup>1\<^sup>0\<^sup>2\<^sup>4 - 2\<^sup>9\<^sup>7\<^sup>0\<close> on, the middle between
  the largest double and \<open>2\<^sup>1\<^sup>0\<^sup>2\<^sup>4\<close>.
\<close>

definition float_limit :: int where
  "float_limit = 2 ^ 1024 - 2 ^ 970"

definition py_float :: "int \<Rightarrow> error + rat" where
  "py_float n =
     (if float_limit \<le> \<bar>n\<bar> then Inl OverflowError else Inr (nearest_double (of_int n)))"

text \<open>
  \<open>ppi / 96.0\<close>: the integer is converted to a float and the two floats are divided, the
  quotient rounded once more.
\<close>

definition truediv_96 :: "int \<Rightarrow> error + rat" where
  "truediv_96 ppi =
     (case py_float ppi of
        Inl err \<Rightarrow> Inl err
      | Inr x \<Rightarrow> Inr (nearest_double (x / 96)))"

section \<open>The render engine: \<open>render_html_file_to_image\<close>\<close>

definition DEFAULT_WIDTH :: int where
  "DEFAULT_WIDTH = 900"

definition DEFAULT_HEIGHT :: int where
  "DEFAULT_HEIGHT = 1200"

definition PPI_OPTIONS :: "(string \<times> int) list" where
  "PPI_OPTIONS =
     [(''72 PPI ('' @ [CHR 0xE5, CHR 0xB1, CHR 0x8F, CHR 0xE5, CHR 0xB9, CHR 0x95,
                      CHR 0xE9, CHR 0xA2, CHR 0x84, CHR 0xE8, CHR 0xA7, CHR 0x88] @ '')'', 72),
      (''150 PPI ('' @ [CHR 0xE6, CHR 0x99, CHR 0xAE, CHR 0xE9, CHR 0x80, CHR 0x9A,
                       CHR 0xE6, CHR 0x89, CHR 0x93, CHR 0xE5, CHR 0x8D, CHR 0xB0] @ '')'', 150),
      (''300 PPI ('' @ [CHR 0xE9, CHR 0xAB, CHR 0x98, CHR 0xE6, CHR 0xB8, CHR 0x85,
                       CHR 0xE5, CHR 0x8D, CHR 0xB0, CHR 0xE5, CHR 0x88, CHR 0xB7] @ '')'', 300),
      (''600 PPI ('' @ [CHR 0xE8, CHR 0xB6, CHR 0x85, CHR 0xE6, CHR 0xB8, CHR 0x85,
                       CHR 0xE5, CHR 0x8D, CHR 0xB0, CHR 0xE5, CHR 0x88, CHR 0xB7] @ '')'', 600)]"

text \<open>\<open>PPI_OPTIONS.get(ppi_choice, 300)\<close>.\<close>

definition get_ppi :: "string \<Rightarrow> int" where
  "get_ppi ppi_choice = (case map_of PPI_OPTIONS ppi_choice of None \<Rightarrow> 300 | Some v \<Rightarrow> v)"

text \<open>The content passed to \<open>page.add_style_tag\<close>, byte for byte.\<close>

definition snapshot_css :: string where
  "snapshot_css =
     ''\<newline>'' @
     ''            .glass-panel {\<newline>'' @
     ''                background: rgba(255, 255, 255, 0.96) !important; \<newline>'' @
     ''                backdrop-filter: none !important;\<newline>'' @
     ''                -webkit-backdrop-filter: none !important;\<newline>'' @
     ''                box-shadow: 0 8px 30px rgba(0,0,0,0.08) !important;\<newline>'' @
     ''            }\<newline>'' @
     ''            body, #poster {\<newline>'' @
     ''                text-rendering: geometricPrecision; \<newline>'' @
     ''                -webkit-font-smoothing: antialiased;\<newline>'' @
     ''            }\<newline>'' @
     ''            #control-panel {\<newline>'' @
     ''                display: none !important;\<newline>'' @
     ''            }\<newline>'' @
     ''        ''"

text \<open>
  \<open>inject_snapshot_mode_css()\<close>: the same rules wrapped in a \<open>style\<close> element. No
  operation calls it.
\<close>

definition inject_snapshot_mode_css :: string where
  \<open>inject_snapshot_mode_css =
     ''\<newline>'' @
     ''    <style id="snapshot-mode-inject">\<newline>'' @
     ''        .glass-panel {\<newline>'' @
     ''            background: rgba(255, 255, 255, 0.96) !important; \<newline>'' @
     ''            backdrop-filter: none !important;\<newline>'' @
     ''            -webkit-backdrop-filter: none !important;\<newline>'' @
     ''            box-shadow: 0 8px 30px rgba(0,0,0,0.08) !important;\<newline>'' @
     ''        }\<newline>'' @
     ''        body, #poster {\<newline>'' @
     ''            text-rendering: geometricPrecision; \<newline>'' @
     ''            -webkit-font-smoothing: antialiased;\<newline>'' @
     ''        }\<newline>'' @
     ''        #control-panel {\<newline>'' @
     ''            display: none !important;\<newline>'' @
     ''        }\<newline>'' @
     ''    </style>\<newline>'' @
     ''    ''\<close>

text \<open>
  One awaited call: it is logged; if it raises, the exception leaves the render, otherwise
  the rest of the coroutine runs.
\<close>

definition attempt ::
  "env \<Rightarrow> step \<Rightarrow> step list \<Rightarrow> (step list \<Rightarrow> step list \<times> (error + 'a)) \<Rightarrow> step list \<times> (error + 'a)"
where
  "attempt e s tr k =
     (if raises e tr s then (tr @ [s], Inl (PlaywrightError s)) else k (tr @ [s]))"

text \<open>
  The body of the \<open>async with\<close> block, for the scale factor and the URL computed before
  it. The \<open>try\<close> around \<open>page.evaluate("document.fonts.ready")\<close> passes on every
  exception, so the call is logged and the body goes on whatever it did.
\<close>

definition render_body ::
  "env \<Rightarrow> rat \<Rightarrow> string \<Rightarrow> int \<Rightarrow> int \<Rightarrow> string \<Rightarrow> step list \<Rightarrow> step list \<times> (error + bytes)"
where
  "render_body e device_scale_factor file_url width height poster_selector tr0 =
       (attempt e (Launch True) tr0 (\<lambda>tr.
        attempt e (New_context (width + 100) (height + 200) device_scale_factor) tr (\<lambda>tr.
        attempt e New_page tr (\<lambda>tr.
        attempt e (Goto file_url ''networkidle'') tr (\<lambda>tr.
        attempt e (Add_style_tag snapshot_css) tr (\<lambda>tr.
        attempt e (Wait_for_timeout 2000) tr (\<lambda>tr.
        (\<lambda>tr.
        attempt e (Query_selector poster_selector) tr (\<lambda>tr.
        if matches e tr poster_selector
        then attempt e (Element_screenshot ''png'' False) tr (\<lambda>tr.
             attempt e Close_browser tr (\<lambda>tr'. (tr', Inr (screenshot e tr))))
        else attempt e (Page_screenshot ''png'' False) tr (\<lambda>tr.
             attempt e Close_browser tr (\<lambda>tr'. (tr', Inr (screenshot e tr))))))
        (tr @ [Evaluate ''document.fonts.ready'']))))))))"

text \<open>
  \<open>async with async_playwright() as p\<close>: the driver is started, the body runs, and the
  driver is stopped on the way out, also when the body raised.
\<close>

definition closing :: "env \<Rightarrow> step list \<times> (error + bytes) \<Rightarrow> step list \<times> (error + bytes)" where
  "closing e x =
     (case x of
        (tr', r) \<Rightarrow>
          if raises e tr' Stop_playwright
          then (tr' @ [Stop_playwright], Inl (PlaywrightError Stop_playwright))
          else (tr' @ [Stop_playwright], r))"

text \<open>
  The scale factor is computed first, before the driver is started: an exception of the
  division leaves the function with no call made.
\<close>

definition render_html_file_to_image ::
  "env \<Rightarrow> string \<Rightarrow> int \<Rightarrow> int \<Rightarrow> int \<Rightarrow> string \<Rightarrow> step list \<times> (error + bytes)"
where
  "render_html_file_to_image e html_file_path ppi width height poster_selector =
     (case truediv_96 ppi of
        Inl err \<Rightarrow> ([], Inl err)
      | Inr device_scale_factor \<Rightarrow>
          (let file_url = ''file://'' @ resolve e html_file_path in
           attempt e Start_playwright []
             (\<lambda>tr. closing e
                (render_body e device_scale_factor file_url width height poster_selector tr))))"

definition sync_render_html_file_to_image ::
  "env \<Rightarrow> string \<Rightarrow> int \<Rightarrow> step list \<times> (error + bytes)"
where
  "sync_render_html_file_to_image e html_file_path ppi =
     render_html_file_to_image e html_file_path ppi DEFAULT_WIDTH DEFAULT_HEIGHT ''#poster''"

section \<open>Scratch directories and temporary files\<close>

text \<open>\<open>html_files[0]\<close> raises on an empty list; the source raises \<open>ValueError\<close> before.\<close>

definition select_html :: "relpath list \<Rightarrow> error + relpath" where
  "select_html hs = (case hs of [] \<Rightarrow> Inl ValueError | h # _ \<Rightarrow> Inr (select_loop hs h))"

text \<open>
  \<open>tempfile.mkdtemp(prefix=...)\<close>: the first candidate name that is not taken is
  created; \<open>FileExistsError\<close> when every candidate is taken.
\<close>

definition mkdtemp :: "env \<Rightarrow> world \<Rightarrow> string \<Rightarrow> (error + string) \<times> world" where
  "mkdtemp e w pre =
     (case find (\<lambda>d. d \<notin> dirs w) (map (\<lambda>r. tmp_root e @ ''/'' @ pre @ r) (randoms e)) of
        None \<Rightarrow> (Inl FileExistsError, w)
      | Some d \<Rightarrow> (Inr d, w\<lparr>dirs := insert d (dirs w)\<rparr>))"

text \<open>
  \<open>tempfile.NamedTemporaryFile(suffix=..., delete=False)\<close> followed by
  \<open>tmp_file.write(data)\<close>: a file that did not exist is created under the first free
  candidate name and receives the data.
\<close>

definition named_temporary_file ::
  "env \<Rightarrow> world \<Rightarrow> string \<Rightarrow> bytes \<Rightarrow> (error + string) \<times> world"
where
  "named_temporary_file e w sfx data =
     (case find (\<lambda>p. files w p = None)
             (map (\<lambda>r. tmp_root e @ ''/tmp'' @ r @ sfx) (randoms e)) of
        None \<Rightarrow> (Inl FileExistsError, w)
      | Some p \<Rightarrow>
          if write_fails e p then (Inl OSError, w\<lparr>files := (files w)(p \<mapsto> [])\<rparr>)
          else (Inr p, w\<lparr>files := (files w)(p \<mapsto> data)\<rparr>))"

text \<open>\<open>shutil.rmtree(d)\<close>: the tree is gone, or the call raises and the directory stays.\<close>

definition rmtree :: "env \<Rightarrow> world \<Rightarrow> string \<Rightarrow> (error + unit) \<times> world" where
  "rmtree e w d =
     (if rmtree_fails e d then (Inl OSError, w) else (Inr (), w\<lparr>dirs := dirs w - {d}\<rparr>))"

definition extract_zip_to_temp ::
  "env \<Rightarrow> world \<Rightarrow> string \<Rightarrow> (error + string \<times> string) \<times> world"
where
  "extract_zip_to_temp e w zip_path =
     (case mkdtemp e w ''poster_export_'' of
        (Inl err, w1) \<Rightarrow> (Inl err, w1)
      | (Inr temp_dir, w1) \<Rightarrow>
          (case extractall e zip_path of
             Inl err \<Rightarrow> (Inl err, w1)
           | Inr entries \<Rightarrow>
               (case select_html (html_files entries) of
                  Inl err \<Rightarrow> (Inl err, w1)
                | Inr html_file \<Rightarrow> (Inr (temp_dir, join_path temp_dir html_file), w1))))"

section \<open>Formatting and \<open>Path.stem\<close>\<close>

function show_nat :: "nat \<Rightarrow> string" where
  "show_nat n =
     (if n < 10 then [char_of (48 + n)] else show_nat (n div 10) @ [char_of (48 + n mod 10)])"
  by pat_completeness auto
termination
  by (relation "measure id") auto

text \<open>\<open>f"{ppi}"\<close> for an integer.\<close>

definition show_int :: "int \<Rightarrow> string" where
  "show_int i = (if i < 0 then CHR ''-'' # show_nat (nat (- i)) else show_nat (nat i))"

definition basename :: "string \<Rightarrow> string" where
  "basename p = rev (takeWhile (\<lambda>c. c \<noteq> CHR ''/'') (rev p))"

text \<open>
  \<open>Path(p).stem\<close>: the name up to its last dot, when that dot is neither the first nor
  the last character of the name; the whole name otherwise.
\<close>

definition stem :: "string \<Rightarrow> string" where
  "stem p =
     (let name = basename p;
          after = length (takeWhile (\<lambda>c. c \<noteq> CHR ''.'') (rev name))
      in if CHR ''.'' \<in> set name \<and> 0 < after \<and> after + 1 < length name
         then take (length name - after - 1) name
         else name)"

section \<open>The operations behind the buttons\<close>

text \<open>
  The third (second, for a preview) component of the tuples the operations return is a
  status text; it is kept by its kind and the values formatted into it.
\<close>

datatype status =
    Need_path
  | Not_found string
  | Need_html
  | Need_upload
  | Need_zip
  | Export_ok int int int nat "string option"
  | Export_failed error
  | Preview_ok "string option"
  | Preview_failed error

type_synonym export_out = "string option \<times> string option \<times> status"
type_synonym preview_out = "string option \<times> status"

definition log_steps :: "world \<Rightarrow> step list \<Rightarrow> world" where
  "log_steps w tr = w\<lparr>browser_log := browser_log w @ tr\<rparr>"

text \<open>The \<open>try\<close> block of \<open>process_local_path\<close>.\<close>

definition export_local_body ::
  "env \<Rightarrow> world \<Rightarrow> string \<Rightarrow> string \<Rightarrow> (error + export_out) \<times> world"
where
  "export_local_body e w local_path ppi_choice =
     (let ppi = get_ppi ppi_choice in
      case sync_render_html_file_to_image e local_path ppi of
        (tr, Inl err) \<Rightarrow> (Inl err, log_steps w tr)
      | (tr, Inr image_bytes) \<Rightarrow>
          (let output_filename = stem local_path in
           case named_temporary_file e (log_steps w tr)
                  (''_'' @ output_filename @ ''_'' @ show_int ppi @ ''PPI.png'') image_bytes of
             (Inl err, w2) \<Rightarrow> (Inl err, w2)
           | (Inr output_path, w2) \<Rightarrow>
               (case pil_size e image_bytes of
                  Inl err \<Rightarrow> (Inl err, w2)
                | Inr (img_width, img_height) \<Rightarrow>
                    (Inr (Some output_path, Some output_path,
                          Export_ok img_width img_height ppi (length image_bytes)
                            (Some local_path)), w2))))"

definition process_local_path ::
  "env \<Rightarrow> world \<Rightarrow> string \<Rightarrow> string \<Rightarrow> (error + export_out) \<times> world"
where
  "process_local_path e w local_path ppi_choice =
     (if strip local_path = [] then (Inr (None, None, Need_path), w)
      else
        let local_path = expanduser e (strip local_path) in
        if \<not> path_exists e local_path then (Inr (None, None, Not_found local_path), w)
        else if \<not> endswith_any (lower local_path) [''.html'', ''.htm'']
        then (Inr (None, None, Need_html), w)
        else
          (case export_local_body e w local_path ppi_choice of
             (Inl err, w') \<Rightarrow> (Inr (None, None, Export_failed err), w')
           | (Inr out, w') \<Rightarrow> (Inr out, w')))"

text \<open>The \<open>try\<close> block of \<open>preview_local_path\<close>.\<close>

definition preview_local_body ::
  "env \<Rightarrow> world \<Rightarrow> string \<Rightarrow> (error + preview_out) \<times> world"
where
  "preview_local_body e w local_path =
     (case sync_render_html_file_to_image e local_path 72 of
        (tr, Inl err) \<Rightarrow> (Inl err, log_steps w tr)
      | (tr, Inr image_bytes) \<Rightarrow>
          (case named_temporary_file e (log_steps w tr) ''_preview.png'' image_bytes of
             (Inl err, w2) \<Rightarrow> (Inl err, w2)
           | (Inr preview_path, w2) \<Rightarrow>
               (Inr (Some preview_path, Preview_ok (Some local_path)), w2)))"

definition preview_local_path ::
  "env \<Rightarrow> world \<Rightarrow> string \<Rightarrow> (error + preview_out) \<times> world"
where
  "preview_local_path e w local_path =
     (if strip local_path = [] then (Inr (None, Need_path), w)
      else
        let local_path = expanduser e (strip local_path) in
        if \<not> path_exists e local_path then (Inr (None, Not_found local_path), w)
        else if \<not> endswith_any (lower local_path) [''.html'', ''.htm'']
        then (Inr (None, Need_html), w)
        else
          (case preview_local_body e w local_path of
             (Inl err, w') \<Rightarrow> (Inr (None, Preview_failed err), w')
           | (Inr out, w') \<Rightarrow> (Inr out, w')))"

text \<open>
  The \<open>finally\<close> block of the two archive operations: \<open>temp_dir\<close> is the variable as the
  \<open>try\<close> block left it, and the exception of \<open>shutil.rmtree\<close> is passed on.
\<close>

definition cleanup :: "env \<Rightarrow> world \<Rightarrow> string option \<Rightarrow> (error + unit) \<times> world" where
  "cleanup e w temp_dir =
     (case temp_dir of
        None \<Rightarrow> (Inr (), w)
      | Some d \<Rightarrow>
          if d \<in> dirs w
          then (case rmtree e w d of
                  (Inl err, w') \<Rightarrow> (Inr (), w')
                | (Inr u, w') \<Rightarrow> (Inr (), w'))
          else (Inr (), w))"

text \<open>
  The \<open>try\<close> block of \<open>process_zip_upload\<close> with its \<open>except\<close> clause; the first component
  is \<open>temp_dir\<close> when the block is left.
\<close>

definition export_zip_body ::
  "env \<Rightarrow> world \<Rightarrow> string \<Rightarrow> string \<Rightarrow> string option \<times> export_out \<times> world"
where
  "export_zip_body e w file_path ppi_choice =
     (let ppi = get_ppi ppi_choice in
      if \<not> endswith (lower file_path) ''.zip'' then (None, (None, None, Need_zip), w)
      else
        (case extract_zip_to_temp e w file_path of
           (Inl err, w1) \<Rightarrow> (None, (None, None, Export_failed err), w1)
         | (Inr (temp_dir, html_file_path), w1) \<Rightarrow>
             (case sync_render_html_file_to_image e html_file_path ppi of
                (tr, Inl err) \<Rightarrow>
                  (Some temp_dir, (None, None, Export_failed err), log_steps w1 tr)
              | (tr, Inr image_bytes) \<Rightarrow>
                  (case named_temporary_file e (log_steps w1 tr)
                          (''_export_'' @ show_int ppi @ ''PPI.png'') image_bytes of
                     (Inl err, w2) \<Rightarrow> (Some temp_dir, (None, None, Export_failed err), w2)
                   | (Inr output_path, w2) \<Rightarrow>
                       (case pil_size e image_bytes of
                          Inl err \<Rightarrow> (Some temp_dir, (None, None, Export_failed err), w2)
                        | Inr (img_width, img_height) \<Rightarrow>
                            (Some temp_dir,
                             (Some output_path, Some output_path,
                              Export_ok img_width img_height ppi (length image_bytes) None),
                             w2))))))"

text \<open>
  An exception of the \<open>finally\<close> block would replace the value being returned.
\<close>

definition process_zip_upload ::
  "env \<Rightarrow> world \<Rightarrow> string option \<Rightarrow> string \<Rightarrow> (error + export_out) \<times> world"
where
  "process_zip_upload e w file_obj ppi_choice =
     (case file_obj of
        None \<Rightarrow> (Inr (None, None, Need_upload), w)
      | Some file_path \<Rightarrow>
          (case export_zip_body e w file_path ppi_choice of
             (temp_dir, out, w') \<Rightarrow>
               (case cleanup e w' temp_dir of
                  (Inl err, w'') \<Rightarrow> (Inl err, w'')
                | (Inr u, w'') \<Rightarrow> (Inr out, w''))))"

definition preview_zip_body ::
  "env \<Rightarrow> world \<Rightarrow> string \<Rightarrow> string option \<times> preview_out \<times> world"
where
  "preview_zip_body e w file_path =
     (if \<not> endswith (lower file_path) ''.zip'' then (None, (None, Need_zip), w)
      else
        (case extract_zip_to_temp e w file_path of
           (Inl err, w1) \<Rightarrow> (None, (None, Preview_failed err), w1)
         | (Inr (temp_dir, html_file_path), w1) \<Rightarrow>
             (case sync_render_html_file_to_image e html_file_path 72 of
                (tr, Inl err) \<Rightarrow> (Some temp_dir, (None, Preview_failed err), log_steps w1 tr)
              | (tr, Inr image_bytes) \<Rightarrow>
                  (case named_temporary_file e (log_steps w1 tr) ''_preview.png'' image_bytes of
                     (Inl err, w2) \<Rightarrow> (Some temp_dir, (None, Preview_failed err), w2)
                   | (Inr preview_path, w2) \<Rightarrow>
                       (Some temp_dir, (Some preview_path, Preview_ok None), w2)))))"

definition preview_zip_upload ::
  "env \<Rightarrow> world \<Rightarrow> string option \<Rightarrow> (error + preview_out) \<times> world"
where
  "preview_zip_upload e w file_obj =
     (case file_obj of
        None \<Rightarrow> (Inr (None, Need_upload), w)
      | Some file_path \<Rightarrow>
          (case preview_zip_body e w file_path of
             (temp_dir, out, w') \<Rightarrow>
               (case cleanup e w' temp_dir of
                  (Inl err, w'') \<Rightarrow> (Inl err, w'')
                | (Inr u, w'') \<Rightarrow> (Inr out, w''))))"

section \<open>The event bindings\<close>

text \<open>
  The three inputs of the page and the events bound to the operations, with the inputs
  each binding lists (the browse button, which only fills the path box from a file
  dialog, is left out).
\<close>

record ui =
  local_path_input :: string
  zip_input :: "string option"
  ppi_dropdown :: string

datatype event =
    Local_preview_click
  | Local_export_click
  | Local_path_submit
  | Zip_preview_click
  | Zip_export_click
  | Zip_input_change

datatype outputs = Preview_outputs preview_out | Export_outputs export_out

definition previewed :: "(error + preview_out) \<times> world \<Rightarrow> (error + outputs) \<times> world" where
  "previewed r = (map_sum id Preview_outputs (fst r), snd r)"

definition exported :: "(error + export_out) \<times> world \<Rightarrow> (error + outputs) \<times> world" where
  "exported r = (map_sum id Export_outputs (fst r), snd r)"

fun on_event :: "env \<Rightarrow> world \<Rightarrow> ui \<Rightarrow> event \<Rightarrow> (error + outputs) \<times> world" where
  "on_event e w u Local_preview_click = previewed (preview_local_path e w (local_path_input u))"
| "on_event e w u Local_export_click =
     exported (process_local_path e w (local_path_input u) (ppi_dropdown u))"
| "on_event e w u Local_path_submit = previewed (preview_local_path e w (local_path_input u))"
| "on_event e w u Zip_preview_click = previewed (preview_zip_upload e w (zip_input u))"
| "on_event e w u Zip_export_click =
     exported (process_zip_upload e w (zip_input u) (ppi_dropdown u))"
| "on_event e w u Zip_input_change = previewed (preview_zip_upload e w (zip_input u))"

section \<open>Reading the style override\<close>

text \<open>
  The override is a text; to say what it declares, it is read the way a style sheet
  is read: rule blocks closed by \<open>}\<close>, a selector before \<open>{\<close>, declarations separated by
  \<open>;\<close>, a property before \<open>:\<close>, with the white space around each part dropped.
\<close>

fun split_on :: "char \<Rightarrow> string \<Rightarrow> string list" where
  "split_on c [] = [[]]"
| "split_on c (x # xs) =
     (if x = c then [] # split_on c xs
      else (case split_on c xs of [] \<Rightarrow> [[x]] | h # t \<Rightarrow> (x # h) # t))"

definition before :: "char \<Rightarrow> string \<Rightarrow> string" where
  "before c s = takeWhile (\<lambda>x. x \<noteq> c) s"

definition after :: "char \<Rightarrow> string \<Rightarrow> string" where
  "after c s = drop 1 (dropWhile (\<lambda>x. x \<noteq> c) s)"

type_synonym css_decl = "string \<times> string"
type_synonym css_rule = "string \<times> css_decl list"

definition css_declarations :: "string \<Rightarrow> css_decl list" where
  "css_declarations body =
     map (\<lambda>d. (strip (before CHR '':'' d), strip (after CHR '':'' d)))
       (filter (\<lambda>d. strip d \<noteq> []) (split_on CHR '';'' body))"

definition css_rules :: "string \<Rightarrow> css_rule list" where
  "css_rules s =
     map (\<lambda>b. (strip (before CHR ''{'' b), css_declarations (after CHR ''{'' b)))
       (filter (\<lambda>b. strip b \<noteq> []) (split_on CHR ''}'' s))"

text \<open>The text inside a \<open>style\<close> element: after the first \<open>>\<close>, up to the next \<open><\<close>.\<close>

definition style_content :: "string \<Rightarrow> string" where
  "style_content s = before CHR ''<'' (after CHR ''>'' s)"

text \<open>The value a rule of the sheet declares for a property.\<close>

definition declared :: "string \<Rightarrow> string \<Rightarrow> string \<Rightarrow> string option" where
  "declared css selector property =
     (case map_of (css_rules css) selector of
        None \<Rightarrow> None
      | Some ds \<Rightarrow> map_of ds property)"

definition digit :: "char \<Rightarrow> nat option" where
  "digit c = (let n = (of_char c :: nat) in if 48 \<le> n \<and> n \<le> 57 then Some (n - 48) else None)"

fun parse_digits :: "string \<Rightarrow> nat \<Rightarrow> nat option" where
  "parse_digits [] acc = Some acc"
| "parse_digits (c # cs) acc =
     (case digit c of None \<Rightarrow> None | Some d \<Rightarrow> parse_digits cs (10 * acc + d))"

definition parse_decimal :: "string \<Rightarrow> rat option" where
  "parse_decimal s =
     (let ip = before CHR ''.'' s; fp = after CHR ''.'' s in
      if ip = [] \<and> fp = [] then None
      else (case (parse_digits ip 0, parse_digits fp 0) of
              (Some i, Some f) \<Rightarrow> Some (of_nat i + of_nat f / 10 ^ length fp)
            | _ \<Rightarrow> None))"

text \<open>
  The opacity of a colour written \<open>rgba(r, g, b, a)\<close>: its fourth argument, 1 being fully
  opaque and 0 fully transparent.
\<close>

definition rgba_alpha :: "string \<Rightarrow> rat option" where
  "rgba_alpha v =
     (if startswith v ''rgba(''
      then (case split_on CHR '','' (before CHR '')'' (drop 5 v)) of
              [r, g, b, a] \<Rightarrow> parse_decimal (strip a)
            | _ \<Rightarrow> None)
      else None)"

definition background_alpha :: "string \<Rightarrow> rat option" where
  "background_alpha css =
     (case declared css ''.glass-panel'' ''background'' of
        None \<Rightarrow> None
      | Some v \<Rightarrow> rgba_alpha v)"

section \<open>Reading the log of a render\<close>

text \<open>
  The five suspension points the render pipeline is described by, and the awaited call
  each one is: navigation, style injection, settling delay, font wait and capture.
\<close>

datatype phase = Navigation | Style_injection | Settling_delay | Font_wait | Capture

fun phase_of :: "step \<Rightarrow> phase option" where
  "phase_of (Goto url wait_until) = Some Navigation"
| "phase_of (Add_style_tag content) = Some Style_injection"
| "phase_of (Wait_for_timeout ms) = Some Settling_delay"
| "phase_of (Evaluate expression) = Some Font_wait"
| "phase_of (Element_screenshot type omit_background) = Some Capture"
| "phase_of (Page_screenshot type full_page) = Some Capture"
| "phase_of s = None"

definition phases :: "step list \<Rightarrow> phase list" where
  "phases tr = List.map_filter phase_of tr"

text \<open>
  The arguments of the first four: the file-scheme URL awaited until the network is idle,
  the style override, 2000 milliseconds, and the promise of the loaded fonts.
\<close>

fun as_written :: "string \<Rightarrow> step \<Rightarrow> bool" where
  "as_written file_url (Goto url wait_until) = (url = file_url \<and> wait_until = ''networkidle'')"
| "as_written file_url (Add_style_tag content) = (content = snapshot_css)"
| "as_written file_url (Wait_for_timeout ms) = (ms = 2000)"
| "as_written file_url (Evaluate expression) = (expression = ''document.fonts.ready'')"
| "as_written file_url s = True"

text \<open>The same surroundings, except that the font wait raises whenever it is awaited.\<close>

definition fonts_fail :: "env \<Rightarrow> env" where
  "fonts_fail e =
     e\<lparr>raises := (\<lambda>tr s. s = Evaluate ''document.fonts.ready'' \<or> raises e tr s)\<rparr>"

section \<open>The selection policy in the words of the specification\<close>

text \<open>
  An HTML-extension file is a regular file whose name ends in \<open>.html\<close> or \<open>.htm\<close>, in any
  letter case; the documents of an archive are its HTML-extension files in traversal
  order.
\<close>

definition html_extension :: "string \<Rightarrow> bool" where
  "html_extension name = (suffix ''.html'' (lower name) \<or> suffix ''.htm'' (lower name))"

definition html_documents :: "entry list \<Rightarrow> relpath list" where
  "html_documents entries =
     map fst (filter (\<lambda>en. snd en = File \<and> html_extension (name_of (fst en))) entries)"

definition directly_at_root :: "relpath \<Rightarrow> bool" where
  "directly_at_root f = (case f of [n] \<Rightarrow> True | _ \<Rightarrow> False)"

definition names_poster_or_index :: "relpath \<Rightarrow> bool" where
  "names_poster_or_index f =
     (sublist ''poster'' (lower (name_of f)) \<or> sublist ''index'' (lower (name_of f)))"

text \<open>
  The priority among the documents: one at the root if there is any, otherwise one named
  after \<open>poster\<close> or \<open>index\<close> if there is any, otherwise the first in traversal order.
\<close>

definition selected_by_priority :: "relpath list \<Rightarrow> relpath \<Rightarrow> bool" where
  "selected_by_priority docs f =
     (List.member docs f \<and>
      (if list_ex directly_at_root docs then directly_at_root f
       else if list_ex names_poster_or_index docs then names_poster_or_index f
       else f = hd docs))"

text \<open>
  The archives in which every entry with an HTML extension is a regular file and has its
  extension in lower case.
\<close>

definition plain_html_names :: "entry list \<Rightarrow> bool" where
  "plain_html_names entries =
     list_all (\<lambda>en. html_extension (name_of (fst en)) \<longrightarrow>
                      snd en = File \<and>
                      (suffix ''.html'' (name_of (fst en)) \<or> suffix ''.htm'' (name_of (fst en))))
       entries"

text \<open>A declaration is forced when its value carries \<open>!important\<close>.\<close>

definition important :: "string \<Rightarrow> bool" where
  "important v = suffix ''!important'' v"

section \<open>A concrete environment\<close>

text \<open>Five archives.\<close>

definition site_archive :: "entry list" where
  "site_archive =
     [([''docs''], Directory), ([''docs'', ''index.html''], File), ([''report.html''], File),
      ([''docs'', ''poster.htm''], File)]"

definition nested_archive :: "entry list" where
  "nested_archive =
     [([''a''], Directory), ([''a'', ''report.html''], File),
      ([''a'', ''poster-final.html''], File), ([''a'', ''logo.png''], File)]"

definition order_archive :: "entry list" where
  "order_archive =
     [([''x''], Directory), ([''x'', ''alpha.htm''], File), ([''x'', ''beta.html''], File)]"

definition upper_archive :: "entry list" where
  "upper_archive = [([''POSTER.HTML''], File)]"

definition directory_archive :: "entry list" where
  "directory_archive =
     [([''site.html''], Directory), ([''site.html'', ''page.html''], File)]"

text \<open>
  A user with two files, the five archives uploaded, a browser in which no call raises
  and \<open>#poster\<close> is the only selector that finds an element, and a decoder that reads the
  size from the first two bytes.
\<close>

definition demo_env :: env where
  "demo_env =
     \<lparr>expanduser = (\<lambda>p. p),
      path_exists = (\<lambda>p. p = ''/home/u/Poster.HTML'' \<or> p = ''/home/u/notes.txt''),
      resolve = (\<lambda>p. p),
      raises = (\<lambda>tr s. False),
      matches = (\<lambda>tr sel. sel = ''#poster''),
      screenshot = (\<lambda>tr. [9, 12, 7]),
      extractall = (\<lambda>z. case map_of [(''/up/site.zip'', site_archive),
                                       (''/up/nested.zip'', nested_archive),
                                       (''/up/order.zip'', order_archive),
                                       (''/up/upper.zip'', upper_archive),
                                       (''/up/directory.zip'', directory_archive)] z of
                            None \<Rightarrow> Inl BadZipFile
                          | Some entries \<Rightarrow> Inr entries),
      tmp_root = ''/tmp'',
      randoms = [''a1'', ''b2''],
      write_fails = (\<lambda>p. False),
      pil_size = (\<lambda>b. case b of x # y # _ \<Rightarrow> Inr (int (unat x), int (unat y))
                          | _ \<Rightarrow> Inl UnidentifiedImageError),
      rmtree_fails = (\<lambda>d. False)\<rparr>"

text \<open>A path typed after an ideographic space (U+3000).\<close>

definition padded_notes :: string where
  "padded_notes = [CHR 0xE3, CHR 0x80, CHR 0x80] @ ''/home/u/notes.txt''"

definition demo_world :: world where
  "demo_world = \<lparr>dirs = {}, files = Map.empty, browser_log = []\<rparr>"

text \<open>The same surroundings with a browser that cannot open a page.\<close>

definition broken_env :: env where
  "broken_env = demo_env\<lparr>raises := (\<lambda>tr s. s = New_page)\<rparr>"

section \<open>The archive locator selects by priority\<close>

lemma select_loop_mem: "select_loop fs h = h \<or> select_loop fs h \<in> set fs"
  by (induction fs h rule: select_loop.induct) auto

lemma select_loop_root:
  "\<exists>g\<in>set fs. at_root g \<Longrightarrow> at_root (select_loop fs h)"
  by (induction fs h rule: select_loop.induct) auto

lemma select_loop_no_root_keyword:
  "\<forall>g\<in>set fs. \<not> at_root g \<Longrightarrow> has_keyword h \<or> (\<exists>g\<in>set fs. has_keyword g)
     \<Longrightarrow> has_keyword (select_loop fs h)"
  by (induction fs h rule: select_loop.induct) auto

lemma select_loop_plain:
  "\<forall>g\<in>set fs. \<not> at_root g \<and> \<not> has_keyword g \<Longrightarrow> select_loop fs h = h"
  by (induction fs h rule: select_loop.induct) auto

lemma select_html_priority:
  assumes "hs \<noteq> []"
  shows "\<exists>f. select_html hs = Inr f \<and> f \<in> set hs \<and>
          (if \<exists>g\<in>set hs. at_root g then at_root f
           else if \<exists>g\<in>set hs. has_keyword g then has_keyword f
           else f = hd hs)"
proof -
  from assms obtain h t where hs: "hs = h # t" by (cases hs) auto
  let ?f = "select_loop hs h"
  have sel: "select_html hs = Inr ?f" by (simp add: select_html_def hs)
  have mem: "?f \<in> set hs" using select_loop_mem [of hs h] by (auto simp: hs)
  have pri: "if \<exists>g\<in>set hs. at_root g then at_root ?f
             else if \<exists>g\<in>set hs. has_keyword g then has_keyword ?f
             else ?f = hd hs"
  proof (cases "\<exists>g\<in>set hs. at_root g")
    case True
    then show ?thesis using select_loop_root [of hs h] by simp
  next
    case nr: False
    show ?thesis
    proof (cases "\<exists>g\<in>set hs. has_keyword g")
      case True
      then show ?thesis using nr select_loop_no_root_keyword [of hs h] by auto
    next
      case False
      then show ?thesis using nr select_loop_plain [of hs h] by (auto simp: hs)
    qed
  qed
  from sel mem pri show ?thesis by blast
qed

text \<open>The tests of the code against the notions of the list library.\<close>

lemma endswith_suffix: "endswith s suf \<longleftrightarrow> suffix suf s"
proof
  assume "endswith s suf"
  then have "s = take (length s - length suf) s @ suf"
    by (metis append_take_drop_id endswith_def)
  then show "suffix suf s" by (metis suffixI)
next
  assume "suffix suf s"
  then obtain zs where "s = zs @ suf" by (auto simp: suffix_def)
  then show "endswith s suf" by (simp add: endswith_def)
qed

lemma startswith_prefix: "startswith s pre \<longleftrightarrow> prefix pre s"
  unfolding startswith_def
  by (metis append_eq_conv_conj prefix_def take_is_prefix)

lemma contains_sublist: "contains sub s \<longleftrightarrow> sublist sub s"
  by (induction s) (auto simp: startswith_prefix sublist_Cons_right)

lemma at_root_directly: "at_root f \<longleftrightarrow> directly_at_root f"
  by (cases f rule: list.exhaust; cases "tl f") (auto simp: at_root_def directly_at_root_def split: list.splits)

lemma has_keyword_names: "has_keyword f \<longleftrightarrow> names_poster_or_index f"
  by (simp add: has_keyword_def names_poster_or_index_def contains_sublist)

lemma suffix_lower: "suffix xs ys \<Longrightarrow> suffix (lower xs) (lower ys)"
  by (auto simp: suffix_def lower_def)

lemma lower_extensions: "lower ''.html'' = ''.html''" "lower ''.htm'' = ''.htm''"
  by (simp_all add: lower_def lower_char_def)

lemma suffix_html_extension:
  "suffix ''.html'' n \<or> suffix ''.htm'' n \<Longrightarrow> html_extension n"
  using suffix_lower [of "''.html''" n] suffix_lower [of "''.htm''" n]
  by (auto simp: html_extension_def lower_extensions)

lemma rglob_plain:
  assumes "plain_html_names entries" and "ext = ''.html'' \<or> ext = ''.htm''"
  shows "rglob entries ext = filter (\<lambda>g. suffix ext (name_of g)) (html_documents entries)"
  using assms(1)
proof (induction entries)
  case Nil
  then show ?case by (simp add: rglob_def html_documents_def)
next
  case (Cons en entries)
  then have rest: "plain_html_names entries"
    and here: "html_extension (name_of (fst en)) \<longrightarrow>
                 snd en = File \<and>
                 (suffix ''.html'' (name_of (fst en)) \<or> suffix ''.htm'' (name_of (fst en)))"
    by (simp_all add: plain_html_names_def)
  have "suffix ext (name_of (fst en)) \<Longrightarrow> html_extension (name_of (fst en))"
    using assms(2) suffix_html_extension by blast
  with here Cons.IH [OF rest] show ?case
    by (auto simp: rglob_def html_documents_def endswith_suffix)
qed

lemma html_files_plain:
  assumes "plain_html_names entries"
  shows "html_files entries =
           filter (\<lambda>g. suffix ''.html'' (name_of g)) (html_documents entries) @
           filter (\<lambda>g. suffix ''.htm'' (name_of g)) (html_documents entries)"
  by (simp add: html_files_def rglob_plain [OF assms])

lemma html_documents_plain:
  assumes "plain_html_names entries" and "g \<in> set (html_documents entries)"
  shows "suffix ''.html'' (name_of g) \<or> suffix ''.htm'' (name_of g)"
  using assms by (auto simp: plain_html_names_def html_documents_def list_all_iff)

lemma set_html_files_plain:
  assumes "plain_html_names entries"
  shows "set (html_files entries) = set (html_documents entries)"
  using html_documents_plain [OF assms] by (auto simp: html_files_plain [OF assms])


text \<open>
  Claim C1, as the code has it. Take an archive in which every entry with an HTML
  extension is a regular file with the extension in lower case, and which has at least
  one such file. When it extracts, \<open>extract_zip_to_temp\<close> returns one of its HTML files:
  one directly in the scratch directory when there is any; otherwise one whose name
  contains \<open>poster\<close> or \<open>index\<close> in any letter case, when there is any; otherwise the first
  \<open>*.html\<close> file in traversal order or, when there is none, the first \<open>*.htm\<close> file. If
  exactly one HTML file is at the root, it is the one returned.
\<close>

theorem locate_selection_priority:
  assumes "mkdtemp e w ''poster_export_'' = (Inr temp_dir, w1)"
    and "extractall e zip_path = Inr entries"
    and "plain_html_names entries"
    and "html_documents entries \<noteq> []"
  shows "\<exists>f. extract_zip_to_temp e w zip_path = (Inr (temp_dir, join_path temp_dir f), w1) \<and>
           f \<in> set (html_documents entries) \<and>
           (if \<exists>g\<in>set (html_documents entries). directly_at_root g then directly_at_root f
            else if \<exists>g\<in>set (html_documents entries). names_poster_or_index g
                 then names_poster_or_index f
            else f = hd (filter (\<lambda>g. suffix ''.html'' (name_of g)) (html_documents entries) @
                         filter (\<lambda>g. suffix ''.htm'' (name_of g)) (html_documents entries))) \<and>
           (\<forall>r. filter directly_at_root (html_documents entries) = [r] \<longrightarrow> f = r)"
proof -
  let ?docs = "html_documents entries"
  have set_eq: "set (html_files entries) = set ?docs"
    by (rule set_html_files_plain [OF assms(3)])
  with assms(4) have ne: "html_files entries \<noteq> []" by auto
  from select_html_priority [OF ne] obtain f where
    sel: "select_html (html_files entries) = Inr f" and
    mem: "f \<in> set (html_files entries)" and
    pri: "if \<exists>g\<in>set (html_files entries). at_root g then at_root f
          else if \<exists>g\<in>set (html_files entries). has_keyword g then has_keyword f
          else f = hd (html_files entries)"
    by blast
  have ex: "extract_zip_to_temp e w zip_path = (Inr (temp_dir, join_path temp_dir f), w1)"
    by (simp add: extract_zip_to_temp_def assms(1) assms(2) sel)
  have mem': "f \<in> set ?docs" using mem set_eq by simp
  have pri': "if \<exists>g\<in>set ?docs. directly_at_root g then directly_at_root f
              else if \<exists>g\<in>set ?docs. names_poster_or_index g then names_poster_or_index f
              else f = hd (filter (\<lambda>g. suffix ''.html'' (name_of g)) ?docs @
                           filter (\<lambda>g. suffix ''.htm'' (name_of g)) ?docs)"
  proof -
    have hd_eq: "hd (html_files entries) =
                   hd (filter (\<lambda>g. suffix ''.html'' (name_of g)) ?docs @
                       filter (\<lambda>g. suffix ''.htm'' (name_of g)) ?docs)"
      by (simp add: html_files_plain [OF assms(3)])
    from pri show ?thesis
      by (simp only: set_eq at_root_directly has_keyword_names hd_eq)
  qed
  have one: "\<forall>r. filter directly_at_root ?docs = [r] \<longrightarrow> f = r"
  proof (intro allI impI)
    fix r
    assume r: "filter directly_at_root ?docs = [r]"
    then have "r \<in> set (filter directly_at_root ?docs)" by simp
    then have "\<exists>g\<in>set ?docs. directly_at_root g" by auto
    with pri' have "directly_at_root f" by simp
    with mem' have "f \<in> set (filter directly_at_root ?docs)" by simp
    with r show "f = r" by simp
  qed
  from ex mem' pri' one show ?thesis by blast
qed

lemma demo_mkdtemp:
  "mkdtemp demo_env demo_world ''poster_export_'' =
     (Inr ''/tmp/poster_export_a1'', demo_world\<lparr>dirs := {''/tmp/poster_export_a1''}\<rparr>)"
  by (simp add: mkdtemp_def demo_env_def demo_world_def)

lemma demo_archives:
  "extractall demo_env ''/up/site.zip'' = Inr site_archive"
  "extractall demo_env ''/up/nested.zip'' = Inr nested_archive"
  "extractall demo_env ''/up/order.zip'' = Inr order_archive"
  by (simp_all add: demo_env_def)

theorem locate_selection_priority_witness:
  "fst (extract_zip_to_temp demo_env demo_world ''/up/nested.zip'') =
     Inr (''/tmp/poster_export_a1'', ''/tmp/poster_export_a1/a/poster-final.html'') \<and>
   fst (extract_zip_to_temp demo_env demo_world ''/up/order.zip'') =
     Inr (''/tmp/poster_export_a1'', ''/tmp/poster_export_a1/x/beta.html'') \<and>
   fst (extract_zip_to_temp demo_env demo_world ''/up/site.zip'') =
     Inr (''/tmp/poster_export_a1'', ''/tmp/poster_export_a1/report.html'')"
proof -
  have plain: "plain_html_names nested_archive" "plain_html_names order_archive"
    "plain_html_names site_archive"
    by code_simp+
  have docs:
    "html_documents nested_archive = [[''a'', ''report.html''], [''a'', ''poster-final.html'']]"
    "html_documents order_archive = [[''x'', ''alpha.htm''], [''x'', ''beta.html'']]"
    "html_documents site_archive =
       [[''docs'', ''index.html''], [''report.html''], [''docs'', ''poster.htm'']]"
    by code_simp+
  have root: "\<not> directly_at_root [''a'', ''report.html'']"
    "\<not> directly_at_root [''a'', ''poster-final.html'']"
    "\<not> directly_at_root [''x'', ''alpha.htm'']" "\<not> directly_at_root [''x'', ''beta.html'']"
    "\<not> directly_at_root [''docs'', ''index.html'']" "directly_at_root [''report.html'']"
    "\<not> directly_at_root [''docs'', ''poster.htm'']"
    by (simp_all add: directly_at_root_def)
  have kw: "\<not> names_poster_or_index [''a'', ''report.html'']"
    "names_poster_or_index [''a'', ''poster-final.html'']"
    "\<not> names_poster_or_index [''x'', ''alpha.htm'']"
    "\<not> names_poster_or_index [''x'', ''beta.html'']"
    by code_simp+
  have sfx: "\<not> suffix ''.html'' (name_of [''x'', ''alpha.htm''])"
    "suffix ''.html'' (name_of [''x'', ''beta.html''])"
    by code_simp+
  have a: "fst (extract_zip_to_temp demo_env demo_world ''/up/nested.zip'') =
     Inr (''/tmp/poster_export_a1'', ''/tmp/poster_export_a1/a/poster-final.html'')"
    using locate_selection_priority [OF demo_mkdtemp demo_archives(2) plain(1)]
    by (auto simp: docs root kw)
  have b: "fst (extract_zip_to_temp demo_env demo_world ''/up/order.zip'') =
     Inr (''/tmp/poster_export_a1'', ''/tmp/poster_export_a1/x/beta.html'')"
    using locate_selection_priority [OF demo_mkdtemp demo_archives(3) plain(2)]
    by (auto simp: docs root kw sfx)
  have c: "fst (extract_zip_to_temp demo_env demo_world ''/up/site.zip'') =
     Inr (''/tmp/poster_export_a1'', ''/tmp/poster_export_a1/report.html'')"
    using locate_selection_priority [OF demo_mkdtemp demo_archives(1) plain(3)]
    by (auto simp: docs root)
  from a b c show ?thesis by blast
qed

theorem locate_misses_the_stated_priority:
  "html_documents upper_archive = [[''POSTER.HTML'']] \<and>
   fst (extract_zip_to_temp demo_env demo_world ''/up/upper.zip'') = Inl ValueError \<and>
   html_documents directory_archive = [[''site.html'', ''page.html'']] \<and>
   fst (extract_zip_to_temp demo_env demo_world ''/up/directory.zip'') =
     Inr (''/tmp/poster_export_a1'', join_path ''/tmp/poster_export_a1'' [''site.html'']) \<and>
   \<not> selected_by_priority (html_documents directory_archive) [''site.html''] \<and>
   html_documents order_archive = [[''x'', ''alpha.htm''], [''x'', ''beta.html'']] \<and>
   fst (extract_zip_to_temp demo_env demo_world ''/up/order.zip'') =
     Inr (''/tmp/poster_export_a1'', join_path ''/tmp/poster_export_a1'' [''x'', ''beta.html'']) \<and>
   selected_by_priority (html_documents order_archive) [''x'', ''alpha.htm''] \<and>
   \<not> selected_by_priority (html_documents order_archive) [''x'', ''beta.html'']"
  by code_simp

section \<open>The render pipeline\<close>

lemma attempt_rule:
  assumes "raises e tr s \<Longrightarrow> Q (tr @ [s], Inl (PlaywrightError s))"
    and "\<not> raises e tr s \<Longrightarrow> Q (k (tr @ [s]))"
  shows "Q (attempt e s tr k)"
  using assms by (simp add: attempt_def)

lemma branch_rule: "(c \<Longrightarrow> Q a) \<Longrightarrow> (\<not> c \<Longrightarrow> Q b) \<Longrightarrow> Q (if c then a else b)"
  by simp

lemma truediv_96_error: "truediv_96 ppi = Inl err \<Longrightarrow> err = OverflowError \<and> float_limit \<le> \<bar>ppi\<bar>"
  by (auto simp: truediv_96_def py_float_def split: if_splits)

lemma truediv_96_overflow: "float_limit \<le> \<bar>ppi\<bar> \<Longrightarrow> truediv_96 ppi = Inl OverflowError"
  by (simp add: truediv_96_def py_float_def)

lemma truediv_96_value:
  "\<bar>ppi\<bar> < float_limit \<Longrightarrow>
   truediv_96 ppi = Inr (nearest_double (nearest_double (of_int ppi) / 96))"
  by (simp add: truediv_96_def py_float_def)

lemma render_rule:
  assumes "truediv_96 ppi = Inl OverflowError \<Longrightarrow> P ([], Inl OverflowError)"
    and "\<And>sc. truediv_96 ppi = Inr sc \<Longrightarrow> raises e [] Start_playwright \<Longrightarrow>
             P ([Start_playwright], Inl (PlaywrightError Start_playwright))"
    and "\<And>sc. truediv_96 ppi = Inr sc \<Longrightarrow> \<not> raises e [] Start_playwright \<Longrightarrow>
             P (closing e (render_body e sc (''file://'' @ resolve e p) wd ht sel [Start_playwright]))"
  shows "P (render_html_file_to_image e p ppi wd ht sel)"
proof (cases "truediv_96 ppi")
  case (Inl err)
  with truediv_96_error [OF Inl] assms(1) show ?thesis
    by (simp add: render_html_file_to_image_def)
next
  case (Inr sc)
  show ?thesis
    unfolding render_html_file_to_image_def Inr sum.case Let_def
    by (rule attempt_rule) (use assms(2,3) Inr in simp_all)
qed

lemma fonts_fail_other [simp]:
  "s \<noteq> Evaluate ''document.fonts.ready'' \<Longrightarrow> raises (fonts_fail e) tr s = raises e tr s"
  "matches (fonts_fail e) = matches e" "screenshot (fonts_fail e) = screenshot e"
  "resolve (fonts_fail e) = resolve e"
  by (simp_all add: fonts_fail_def)

lemma render_fonts_fail:
  "render_html_file_to_image (fonts_fail e) p ppi wd ht sel = render_html_file_to_image e p ppi wd ht sel"
  by (simp add: render_html_file_to_image_def render_body_def attempt_def closing_def Let_def
      split: sum.splits)

lemma render_phases_prefix:
  "prefix (phases (fst (render_html_file_to_image e p ppi wd ht sel)))
      [Navigation, Style_injection, Settling_delay, Font_wait, Capture]"
proof -
  let ?P = "\<lambda>x. prefix (phases (fst x))
                  [Navigation, Style_injection, Settling_delay, Font_wait, Capture]"
  let ?Q = "\<lambda>x. ?P (closing e x)"
  have "?Q (render_body e sc (''file://'' @ resolve e p) wd ht sel [Start_playwright])" for sc
    unfolding render_body_def
    by (intro attempt_rule [where Q = ?Q] branch_rule [where Q = ?Q])
       (simp_all add: closing_def phases_def)
  then show ?thesis
    by (intro render_rule [where P = ?P]) (simp_all add: phases_def)
qed

lemma render_phases_complete:
  "snd (render_html_file_to_image e p ppi wd ht sel) = Inr b \<Longrightarrow>
   phases (fst (render_html_file_to_image e p ppi wd ht sel)) =
      [Navigation, Style_injection, Settling_delay, Font_wait, Capture]"
proof -
  let ?P = "\<lambda>x. \<forall>b. snd x = Inr b \<longrightarrow>
               phases (fst x) = [Navigation, Style_injection, Settling_delay, Font_wait, Capture]"
  let ?Q = "\<lambda>x. ?P (closing e x)"
  have "?Q (render_body e sc (''file://'' @ resolve e p) wd ht sel [Start_playwright])" for sc
    unfolding render_body_def
    by (intro attempt_rule [where Q = ?Q] branch_rule [where Q = ?Q])
       (simp_all add: closing_def phases_def)
  then have "?P (render_html_file_to_image e p ppi wd ht sel)"
    by (intro render_rule [where P = ?P]) (simp_all add: phases_def)
  then show "snd (render_html_file_to_image e p ppi wd ht sel) = Inr b \<Longrightarrow>
   phases (fst (render_html_file_to_image e p ppi wd ht sel)) =
      [Navigation, Style_injection, Settling_delay, Font_wait, Capture]" by blast
qed

lemma render_as_written:
  "\<forall>s\<in>set (fst (render_html_file_to_image e p ppi wd ht sel)). as_written (''file://'' @ resolve e p) s"
proof -
  let ?P = "\<lambda>x. \<forall>s\<in>set (fst x). as_written (''file://'' @ resolve e p) s"
  let ?Q = "\<lambda>x. ?P (closing e x)"
  have "?Q (render_body e sc (''file://'' @ resolve e p) wd ht sel [Start_playwright])" for sc
    unfolding render_body_def
    by (intro attempt_rule [where Q = ?Q] branch_rule [where Q = ?Q])
       (simp_all add: closing_def)
  then show ?thesis
    by (intro render_rule [where P = ?P]) simp_all
qed

lemma render_body_contexts:
  "\<forall>s\<in>set (fst (closing e (render_body e sc url wd ht sel [Start_playwright]))).
      \<forall>a b c. s = New_context a b c \<longrightarrow> a = wd + 100 \<and> b = ht + 200 \<and> c = sc"
proof -
  let ?Q = "\<lambda>x. \<forall>s\<in>set (fst (closing e x)). \<forall>a b c. s = New_context a b c \<longrightarrow>
                a = wd + 100 \<and> b = ht + 200 \<and> c = sc"
  show ?thesis
    unfolding render_body_def
    by (intro attempt_rule [where Q = ?Q] branch_rule [where Q = ?Q])
       (simp_all add: closing_def)
qed

lemma render_contexts:
  "\<forall>s\<in>set (fst (render_html_file_to_image e p ppi wd ht sel)).
      \<forall>a b c. s = New_context a b c \<longrightarrow>
        a = wd + 100 \<and> b = ht + 200 \<and> truediv_96 ppi = Inr c"
proof -
  let ?P = "\<lambda>x. \<forall>s\<in>set (fst x). \<forall>a b c. s = New_context a b c \<longrightarrow>
                a = wd + 100 \<and> b = ht + 200 \<and> truediv_96 ppi = Inr c"
  show ?thesis
  proof (rule render_rule [where P = ?P])
    show "?P ([], Inl OverflowError)" by simp
  next
    show "?P ([Start_playwright], Inl (PlaywrightError Start_playwright))" by simp
  next
    fix sc
    assume sc: "truediv_96 ppi = Inr sc"
    from render_body_contexts [of e sc "''file://'' @ resolve e p" wd ht sel]
    show "?P (closing e (render_body e sc (''file://'' @ resolve e p) wd ht sel [Start_playwright]))"
      by (auto simp: sc)
  qed
qed

lemma render_context_created:
  assumes "truediv_96 ppi = Inr sc"
    and "\<not> raises e [] Start_playwright" and "\<not> raises e [Start_playwright] (Launch True)"
  shows "take 3 (fst (render_html_file_to_image e p ppi wd ht sel)) =
           [Start_playwright, Launch True, New_context (wd + 100) (ht + 200) sc]"
proof -
  let ?P = "\<lambda>x. take 3 (fst x) =
               [Start_playwright, Launch True, New_context (wd + 100) (ht + 200) sc]"
  let ?Q = "\<lambda>x. ?P (closing e x)"
  have "?Q (render_body e sc (''file://'' @ resolve e p) wd ht sel [Start_playwright])"
    unfolding render_body_def
    by (intro attempt_rule [where Q = ?Q] branch_rule [where Q = ?Q])
       (use assms in \<open>simp_all add: closing_def\<close>)
  then show ?thesis
    by (intro render_rule [where P = ?P]) (use assms in simp_all)
qed

lemma render_errors:
  "\<forall>err. snd (render_html_file_to_image e p ppi wd ht sel) = Inl err \<longrightarrow>
      (err = OverflowError \<and> float_limit \<le> \<bar>ppi\<bar>) \<or>
      (\<exists>tr s. err = PlaywrightError s \<and> raises e tr s)"
proof -
  let ?P = "\<lambda>x. \<forall>err. snd x = Inl err \<longrightarrow>
              (err = OverflowError \<and> float_limit \<le> \<bar>ppi\<bar>) \<or>
              (\<exists>tr s. err = PlaywrightError s \<and> raises e tr s)"
  let ?Q = "\<lambda>x. ?P (closing e x)"
  have "?Q (render_body e sc (''file://'' @ resolve e p) wd ht sel [Start_playwright])" for sc
    unfolding render_body_def
    by (intro attempt_rule [where Q = ?Q] branch_rule [where Q = ?Q])
       (auto simp: closing_def)
  then show ?thesis
    by (intro render_rule [where P = ?P]) (auto dest: truediv_96_error)
qed

lemma render_starts_session:
  assumes "truediv_96 ppi = Inr sc"
  shows "fst (render_html_file_to_image e p ppi wd ht sel) \<noteq> [] \<and>
         hd (fst (render_html_file_to_image e p ppi wd ht sel)) = Start_playwright"
proof -
  let ?P = "\<lambda>x. fst x \<noteq> [] \<and> hd (fst x) = Start_playwright"
  let ?Q = "\<lambda>x. ?P (closing e x)"
  have "?Q (render_body e sc (''file://'' @ resolve e p) wd ht sel [Start_playwright])" for sc
    unfolding render_body_def
    by (intro attempt_rule [where Q = ?Q] branch_rule [where Q = ?Q])
       (simp_all add: closing_def)
  then show ?thesis
    by (intro render_rule [where P = ?P]) (use assms in simp_all)
qed

lemma render_overflow:
  "float_limit \<le> \<bar>ppi\<bar> \<Longrightarrow>
   render_html_file_to_image e p ppi wd ht sel = ([], Inl OverflowError)"
  by (simp add: render_html_file_to_image_def truediv_96_overflow)

lemma demo_render:
  "truediv_96 ppi = Inr sc \<Longrightarrow>
   render_html_file_to_image demo_env p ppi wd ht ''#poster'' =
     ([Start_playwright, Launch True, New_context (wd + 100) (ht + 200) sc,
       New_page, Goto (''file://'' @ p) ''networkidle'', Add_style_tag snapshot_css,
       Wait_for_timeout 2000, Evaluate ''document.fonts.ready'', Query_selector ''#poster'',
       Element_screenshot ''png'' False, Close_browser, Stop_playwright],
      Inr [9, 12, 7])"
  by (simp add: render_html_file_to_image_def render_body_def attempt_def closing_def Let_def
      demo_env_def)

lemma float_limit_large: "1000 < float_limit"
  by (simp add: float_limit_def)

lemma truediv_96_presets:
  "truediv_96 72 = Inr (3 / 4)" "truediv_96 150 = Inr (25 / 16)"
  "truediv_96 300 = Inr (25 / 8)" "truediv_96 600 = Inr (25 / 4)"
  "truediv_96 0 = Inr 0" "truediv_96 (- 96) = Inr (- 1)"
  "truediv_96 100 = Inr (4691249611844267 / 4503599627370496)"
  by code_simp+


lemma float_limit_pos: "0 < float_limit"
  by (simp add: float_limit_def)

text \<open>
  Claim C2. In every render the awaited steps come in one order: navigation to the
  \<open>file://\<close> URL with \<open>wait_until="networkidle"\<close>, the style override added as a style
  tag, \<open>wait_for_timeout(2000)\<close>, the wait for \<open>document.fonts.ready\<close>, the capture. The
  log of a render holds a prefix of that sequence (an exception ends it early), each step
  with the arguments above; a render that returns bytes went through all five; and a
  render in which the font wait raises runs exactly as one in which it does not.
\<close>

theorem render_steps_in_strict_sequence:
  "prefix (phases (fst (render_html_file_to_image e p ppi wd ht sel)))
      [Navigation, Style_injection, Settling_delay, Font_wait, Capture] \<and>
   (\<forall>s\<in>set (fst (render_html_file_to_image e p ppi wd ht sel)).
      as_written (''file://'' @ resolve e p) s) \<and>
   (\<forall>b. snd (render_html_file_to_image e p ppi wd ht sel) = Inr b \<longrightarrow>
      phases (fst (render_html_file_to_image e p ppi wd ht sel)) =
        [Navigation, Style_injection, Settling_delay, Font_wait, Capture]) \<and>
   render_html_file_to_image (fonts_fail e) p ppi wd ht sel =
     render_html_file_to_image e p ppi wd ht sel"
  using render_phases_prefix [of e p ppi wd ht sel] render_as_written [of e p ppi wd ht sel]
    render_phases_complete [of e p ppi wd ht sel] render_fonts_fail [of e p ppi wd ht sel]
  by blast

theorem render_steps_in_strict_sequence_witness:
  "snd (render_html_file_to_image (fonts_fail demo_env) ''/home/u/Poster.HTML'' 300 900 1200 ''#poster'')
     = Inr [9, 12, 7] \<and>
   phases (fst (render_html_file_to_image demo_env ''/home/u/Poster.HTML'' 300 900 1200 ''#poster''))
     = [Navigation, Style_injection, Settling_delay, Font_wait, Capture]"
proof -
  have r: "snd (render_html_file_to_image demo_env ''/home/u/Poster.HTML'' 300 900 1200 ''#poster'')
             = Inr [9, 12, 7]"
    by (simp add: demo_render [OF truediv_96_presets(3)])
  from render_steps_in_strict_sequence
         [of demo_env "''/home/u/Poster.HTML''" 300 900 1200 "''#poster''"] r
  show ?thesis by simp
qed

text \<open>
  Claim C5. When no call of the browser raises (the font wait apart), a render at a
  density that converts to a float returns bytes whether or not the selector finds an
  element. If it finds none, the capture is \<open>page.screenshot(type="png", full_page=False)\<close>
  and its bytes are returned; if it finds one, the capture is that element's
  \<open>screenshot(type="png", omit_background=False)\<close>. (A density beyond the floats ends the
  render in \<open>OverflowError\<close> before the page is looked at.)
\<close>

theorem capture_follows_the_selector:
  assumes "\<forall>tr s. raises e tr s \<longrightarrow> s = Evaluate ''document.fonts.ready''"
  shows "render_html_file_to_image e p ppi wd ht sel =
           (case truediv_96 ppi of
              Inl err \<Rightarrow> ([], Inl OverflowError)
            | Inr sc \<Rightarrow>
                (let pre = [Start_playwright, Launch True,
                            New_context (wd + 100) (ht + 200) sc, New_page,
                            Goto (''file://'' @ resolve e p) ''networkidle'',
                            Add_style_tag snapshot_css, Wait_for_timeout 2000,
                            Evaluate ''document.fonts.ready'', Query_selector sel];
                     shot = (if matches e pre sel then Element_screenshot ''png'' False
                             else Page_screenshot ''png'' False)
                 in (pre @ [shot, Close_browser, Stop_playwright],
                     Inr (screenshot e (pre @ [shot])))))"
proof (cases "truediv_96 ppi")
  case (Inl err)
  with truediv_96_error [OF Inl] show ?thesis
    by (simp add: render_html_file_to_image_def)
next
  case (Inr sc)
  have ok: "\<And>tr s. s \<noteq> Evaluate ''document.fonts.ready'' \<Longrightarrow> \<not> raises e tr s"
    using assms by blast
  show ?thesis
    by (simp add: render_html_file_to_image_def render_body_def attempt_def closing_def
        Let_def ok Inr)
qed

theorem capture_follows_the_selector_witness:
  "render_html_file_to_image demo_env ''/home/u/Poster.HTML'' 72 900 1200 ''#missing'' =
     ([Start_playwright, Launch True, New_context 1000 1400 (3 / 4), New_page,
       Goto ''file:///home/u/Poster.HTML'' ''networkidle'', Add_style_tag snapshot_css,
       Wait_for_timeout 2000, Evaluate ''document.fonts.ready'', Query_selector ''#missing'',
       Page_screenshot ''png'' False, Close_browser, Stop_playwright],
      Inr [9, 12, 7])"
proof -
  have h: "\<forall>tr s. raises demo_env tr s \<longrightarrow> s = Evaluate ''document.fonts.ready''"
    by (simp add: demo_env_def)
  have m: "\<And>tr. \<not> matches demo_env tr ''#missing''" "resolve demo_env = (\<lambda>p. p)"
    "screenshot demo_env = (\<lambda>tr. [9, 12, 7])"
    by (simp_all add: demo_env_def)
  from capture_follows_the_selector [OF h, of "''/home/u/Poster.HTML''" 72 900 1200 "''#missing''"]
  show ?thesis by (simp add: Let_def m truediv_96_presets)
qed

text \<open>
  Claim C6, as the code has it. Every browser context a render creates has the viewport
  \<open>(width + 100, height + 200)\<close> and the device scale factor \<open>ppi / 96.0\<close>. For a density
  below \<open>2\<^sup>1\<^sup>0\<^sup>2\<^sup>4 - 2\<^sup>9\<^sup>7\<^sup>0\<close> in absolute value that float is the double nearest to the quotient
  by 96 of the double nearest to the density, and the context is created third, as soon
  as the driver has started and the browser is launched. For any other density the
  division raises \<open>OverflowError\<close> and the render ends before any call of the browser.
\<close>

theorem context_viewport_and_scale:
  "(\<forall>s\<in>set (fst (render_html_file_to_image e p ppi wd ht sel)).
      \<forall>a b c. s = New_context a b c \<longrightarrow>
        a = wd + 100 \<and> b = ht + 200 \<and> truediv_96 ppi = Inr c) \<and>
   (\<bar>ppi\<bar> < float_limit \<longrightarrow>
      truediv_96 ppi = Inr (nearest_double (nearest_double (of_int ppi) / 96)) \<and>
      (\<not> raises e [] Start_playwright \<and> \<not> raises e [Start_playwright] (Launch True) \<longrightarrow>
         take 3 (fst (render_html_file_to_image e p ppi wd ht sel)) =
           [Start_playwright, Launch True,
            New_context (wd + 100) (ht + 200)
              (nearest_double (nearest_double (of_int ppi) / 96))])) \<and>
   (float_limit \<le> \<bar>ppi\<bar> \<longrightarrow>
      render_html_file_to_image e p ppi wd ht sel = ([], Inl OverflowError))"
  using render_contexts [of e p ppi wd ht sel] truediv_96_value [of ppi]
    render_context_created [of ppi "nearest_double (nearest_double (of_int ppi) / 96)" e p wd ht sel]
    render_overflow [of ppi e p wd ht sel]
  by blast

theorem context_viewport_and_scale_witness:
  "take 3 (fst (render_html_file_to_image demo_env ''/home/u/Poster.HTML'' 300 900 1200 ''#poster'')) =
     [Start_playwright, Launch True, New_context 1000 1400 (25 / 8)]"
proof -
  have h: "\<not> raises demo_env [] Start_playwright \<and> \<not> raises demo_env [Start_playwright] (Launch True)"
    by (simp add: demo_env_def)
  have l: "\<bar>300 :: int\<bar> < float_limit"
    using float_limit_large by simp
  from context_viewport_and_scale
         [of demo_env "''/home/u/Poster.HTML''" 300 900 1200 "''#poster''"] h l
  have "truediv_96 300 = Inr (nearest_double (nearest_double (of_int 300) / 96))"
    and "take 3 (fst (render_html_file_to_image demo_env ''/home/u/Poster.HTML'' 300 900 1200 ''#poster'')) =
           [Start_playwright, Launch True,
            New_context (900 + 100) (1200 + 200) (nearest_double (nearest_double (of_int 300) / 96))]"
    by blast+
  then show ?thesis by (simp add: truediv_96_presets)
qed

theorem huge_density_creates_no_context:
  "render_html_file_to_image demo_env ''/home/u/Poster.HTML'' (2 ^ 1024) 900 1200 ''#poster'' =
     ([], Inl OverflowError) \<and>
   take 3 (fst (render_html_file_to_image demo_env ''/home/u/Poster.HTML'' 100 900 1200 ''#poster'')) =
     [Start_playwright, Launch True,
      New_context 1000 1400 (4691249611844267 / 4503599627370496)] \<and>
   (4691249611844267 / 4503599627370496 :: rat) \<noteq> 100 / 96"
proof -
  have "float_limit \<le> \<bar>2 ^ 1024 :: int\<bar>" by (simp add: float_limit_def)
  then have a: "render_html_file_to_image demo_env ''/home/u/Poster.HTML'' (2 ^ 1024) 900 1200 ''#poster'' =
     ([], Inl OverflowError)"
    by (rule render_overflow)
  have b: "take 3 (fst (render_html_file_to_image demo_env ''/home/u/Poster.HTML'' 100 900 1200 ''#poster'')) =
     [Start_playwright, Launch True,
      New_context 1000 1400 (4691249611844267 / 4503599627370496)]"
    by (simp add: demo_render [OF truediv_96_presets(7)])
  have c: "(4691249611844267 / 4503599627370496 :: rat) \<noteq> 100 / 96" by simp
  from a b c show ?thesis by blast
qed

section \<open>Densities, path checks and previews\<close>

lemma named_temporary_file_log [simp]:
  "browser_log (snd (named_temporary_file e w sfx d)) = browser_log w"
  by (simp add: named_temporary_file_def split: option.splits)

lemma extract_zip_to_temp_log [simp]:
  "browser_log (snd (extract_zip_to_temp e w z)) = browser_log w"
  by (simp add: extract_zip_to_temp_def mkdtemp_def split: option.splits sum.splits)

lemma cleanup_log [simp]: "browser_log (snd (cleanup e w td)) = browser_log w"
  by (simp add: cleanup_def rmtree_def split: option.splits)

lemma cleanup_returns [simp]: "fst (cleanup e w td) = Inr ()"
  by (simp add: cleanup_def rmtree_def split: option.splits prod.splits sum.splits)

lemma get_ppi_default: "map_of PPI_OPTIONS c = None \<Longrightarrow> get_ppi c = 300"
  by (simp add: get_ppi_def)

lemma label_300: "get_ppi (fst (PPI_OPTIONS ! 2)) = 300"
  by (simp add: get_ppi_def PPI_OPTIONS_def)

lemma export_local_body_ppi:
  "get_ppi c = get_ppi c' \<Longrightarrow> export_local_body e w p c = export_local_body e w p c'"
  by (simp add: export_local_body_def)

lemma process_local_path_ppi:
  assumes "get_ppi c = get_ppi c'"
  shows "process_local_path e w lp c = process_local_path e w lp c'"
  unfolding process_local_path_def export_local_body_ppi [OF assms] ..

lemma export_zip_body_ppi:
  "get_ppi c = get_ppi c' \<Longrightarrow> export_zip_body e w p c = export_zip_body e w p c'"
  by (simp add: export_zip_body_def)

lemma process_zip_upload_ppi:
  assumes "get_ppi c = get_ppi c'"
  shows "process_zip_upload e w z c = process_zip_upload e w z c'"
  unfolding process_zip_upload_def export_zip_body_ppi [OF assms] ..

lemma site_extract:
  assumes "extractall e ''/up/site.zip'' = Inr site_archive"
    and "tmp_root e = ''/tmp''" and "randoms e = [''a1'', ''b2'']"
  shows "extract_zip_to_temp e demo_world ''/up/site.zip'' =
     (Inr (''/tmp/poster_export_a1'', ''/tmp/poster_export_a1/report.html''),
      demo_world\<lparr>dirs := {''/tmp/poster_export_a1''}\<rparr>)"
proof -
  have s: "select_html (html_files site_archive) = Inr [''report.html'']"
    by code_simp
  show ?thesis
    by (simp add: extract_zip_to_temp_def mkdtemp_def assms s demo_world_def)
qed

lemma demo_extract:
  "extract_zip_to_temp demo_env demo_world ''/up/site.zip'' =
     (Inr (''/tmp/poster_export_a1'', ''/tmp/poster_export_a1/report.html''),
      demo_world\<lparr>dirs := {''/tmp/poster_export_a1''}\<rparr>)"
  by (rule site_extract) (simp_all add: demo_env_def)

text \<open>
  Claim C4, as the code has it. No density is validated. A label that is not a key of
  \<open>PPI_OPTIONS\<close> stands for the density 300, and both exports run as they do for the
  300 PPI label. A render at a zero or negative density above \<open>-(2\<^sup>1\<^sup>0\<^sup>2\<^sup>4 - 2\<^sup>9\<^sup>7\<^sup>0)\<close>
  starts the browser session, hands \<open>ppi / 96.0\<close> to the browser context, and returns no
  error but an exception raised by a call of the browser; at or below that bound the
  division raises \<open>OverflowError\<close> before the session.
\<close>

theorem density_is_not_validated:
  "(map_of PPI_OPTIONS ppi_choice = None \<longrightarrow>
      get_ppi ppi_choice = 300 \<and>
      process_local_path e w local_path ppi_choice =
        process_local_path e w local_path (fst (PPI_OPTIONS ! 2)) \<and>
      process_zip_upload e w file_obj ppi_choice =
        process_zip_upload e w file_obj (fst (PPI_OPTIONS ! 2))) \<and>
   (ppi \<le> 0 \<and> - float_limit < ppi \<longrightarrow>
      fst (render_html_file_to_image e p ppi wd ht sel) \<noteq> [] \<and>
      hd (fst (render_html_file_to_image e p ppi wd ht sel)) = Start_playwright \<and>
      (\<forall>s\<in>set (fst (render_html_file_to_image e p ppi wd ht sel)).
         \<forall>a b c. s = New_context a b c \<longrightarrow> truediv_96 ppi = Inr c) \<and>
      (\<forall>err. snd (render_html_file_to_image e p ppi wd ht sel) = Inl err \<longrightarrow>
         (\<exists>tr s. err = PlaywrightError s \<and> raises e tr s))) \<and>
   (ppi \<le> - float_limit \<longrightarrow>
      render_html_file_to_image e p ppi wd ht sel = ([], Inl OverflowError))"
proof -
  have a: "map_of PPI_OPTIONS ppi_choice = None \<longrightarrow>
      get_ppi ppi_choice = 300 \<and>
      process_local_path e w local_path ppi_choice =
        process_local_path e w local_path (fst (PPI_OPTIONS ! 2)) \<and>
      process_zip_upload e w file_obj ppi_choice =
        process_zip_upload e w file_obj (fst (PPI_OPTIONS ! 2))"
    using get_ppi_default [of ppi_choice] label_300
      process_local_path_ppi [of ppi_choice "fst (PPI_OPTIONS ! 2)" e w local_path]
      process_zip_upload_ppi [of ppi_choice "fst (PPI_OPTIONS ! 2)" e w file_obj]
    by simp
  have b: "ppi \<le> 0 \<and> - float_limit < ppi \<longrightarrow>
      fst (render_html_file_to_image e p ppi wd ht sel) \<noteq> [] \<and>
      hd (fst (render_html_file_to_image e p ppi wd ht sel)) = Start_playwright \<and>
      (\<forall>s\<in>set (fst (render_html_file_to_image e p ppi wd ht sel)).
         \<forall>a b c. s = New_context a b c \<longrightarrow> truediv_96 ppi = Inr c) \<and>
      (\<forall>err. snd (render_html_file_to_image e p ppi wd ht sel) = Inl err \<longrightarrow>
         (\<exists>tr s. err = PlaywrightError s \<and> raises e tr s))"
  proof (intro impI)
    assume r: "ppi \<le> 0 \<and> - float_limit < ppi"
    then have lt: "\<bar>ppi\<bar> < float_limit" by simp
    from truediv_96_value [OF lt] render_starts_session [of ppi _ e p wd ht sel]
    have s: "fst (render_html_file_to_image e p ppi wd ht sel) \<noteq> [] \<and>
             hd (fst (render_html_file_to_image e p ppi wd ht sel)) = Start_playwright"
      by blast
    have c: "\<forall>s\<in>set (fst (render_html_file_to_image e p ppi wd ht sel)).
         \<forall>a b c. s = New_context a b c \<longrightarrow> truediv_96 ppi = Inr c"
      using render_contexts [of e p ppi wd ht sel] by blast
    have er: "\<forall>err. snd (render_html_file_to_image e p ppi wd ht sel) = Inl err \<longrightarrow>
         (\<exists>tr s. err = PlaywrightError s \<and> raises e tr s)"
      using render_errors [of e p ppi wd ht sel] lt by (meson not_less)
    from s c er show "fst (render_html_file_to_image e p ppi wd ht sel) \<noteq> [] \<and>
      hd (fst (render_html_file_to_image e p ppi wd ht sel)) = Start_playwright \<and>
      (\<forall>s\<in>set (fst (render_html_file_to_image e p ppi wd ht sel)).
         \<forall>a b c. s = New_context a b c \<longrightarrow> truediv_96 ppi = Inr c) \<and>
      (\<forall>err. snd (render_html_file_to_image e p ppi wd ht sel) = Inl err \<longrightarrow>
         (\<exists>tr s. err = PlaywrightError s \<and> raises e tr s))"
      by blast
  qed
  have c: "ppi \<le> - float_limit \<longrightarrow>
      render_html_file_to_image e p ppi wd ht sel = ([], Inl OverflowError)"
    using render_overflow [of ppi e p wd ht sel] by simp
  from a b c show ?thesis by blast
qed

theorem density_is_not_validated_witness:
  "fst (process_local_path demo_env demo_world ''/home/u/Poster.HTML'' ''0 PPI'') =
     Inr (Some ''/tmp/tmpa1_Poster_300PPI.png'', Some ''/tmp/tmpa1_Poster_300PPI.png'',
          Export_ok 9 12 300 3 (Some ''/home/u/Poster.HTML'')) \<and>
   fst (process_zip_upload demo_env demo_world (Some ''/up/site.zip'') ''0 PPI'') =
     Inr (Some ''/tmp/tmpa1_export_300PPI.png'', Some ''/tmp/tmpa1_export_300PPI.png'',
          Export_ok 9 12 300 3 None) \<and>
   hd (fst (render_html_file_to_image demo_env ''/home/u/Poster.HTML'' 0 900 1200 ''#poster'')) =
     Start_playwright"
proof -
  have h: "map_of PPI_OPTIONS ''0 PPI'' = None"
    by (simp add: PPI_OPTIONS_def)
  have z: "(0 :: int) \<le> 0 \<and> - float_limit < 0"
    using float_limit_pos by simp
  have l: "fst (process_local_path demo_env demo_world ''/home/u/Poster.HTML'' (fst (PPI_OPTIONS ! 2))) =
     Inr (Some ''/tmp/tmpa1_Poster_300PPI.png'', Some ''/tmp/tmpa1_Poster_300PPI.png'',
          Export_ok 9 12 300 3 (Some ''/home/u/Poster.HTML''))"
    by code_simp
  have u: "fst (process_zip_upload demo_env demo_world (Some ''/up/site.zip'') (fst (PPI_OPTIONS ! 2))) =
     Inr (Some ''/tmp/tmpa1_export_300PPI.png'', Some ''/tmp/tmpa1_export_300PPI.png'',
          Export_ok 9 12 300 3 None)"
    by code_simp
  from density_is_not_validated
         [where ppi_choice = "''0 PPI''" and e = demo_env and w = demo_world
            and local_path = "''/home/u/Poster.HTML''" and file_obj = "Some ''/up/site.zip''"
            and p = "''/home/u/Poster.HTML''" and ppi = 0 and wd = 900 and ht = 1200
            and sel = "''#poster''"] h z l u
  show ?thesis by simp
qed

theorem invalid_density_is_rendered:
  "render_html_file_to_image demo_env ''/home/u/Poster.HTML'' 0 900 1200 ''#poster'' =
     ([Start_playwright, Launch True, New_context 1000 1400 0, New_page,
       Goto ''file:///home/u/Poster.HTML'' ''networkidle'', Add_style_tag snapshot_css,
       Wait_for_timeout 2000, Evaluate ''document.fonts.ready'', Query_selector ''#poster'',
       Element_screenshot ''png'' False, Close_browser, Stop_playwright],
      Inr [9, 12, 7]) \<and>
   take 3 (fst (render_html_file_to_image demo_env ''/home/u/Poster.HTML'' (- 96) 900 1200 ''#poster'')) =
     [Start_playwright, Launch True, New_context 1000 1400 (- 1)] \<and>
   map_of PPI_OPTIONS ''0 PPI'' = None \<and>
   fst (process_local_path demo_env demo_world ''/home/u/Poster.HTML'' ''0 PPI'') =
     Inr (Some ''/tmp/tmpa1_Poster_300PPI.png'', Some ''/tmp/tmpa1_Poster_300PPI.png'',
          Export_ok 9 12 300 3 (Some ''/home/u/Poster.HTML''))"
proof -
  have a: "render_html_file_to_image demo_env ''/home/u/Poster.HTML'' 0 900 1200 ''#poster'' =
     ([Start_playwright, Launch True, New_context 1000 1400 0, New_page,
       Goto ''file:///home/u/Poster.HTML'' ''networkidle'', Add_style_tag snapshot_css,
       Wait_for_timeout 2000, Evaluate ''document.fonts.ready'', Query_selector ''#poster'',
       Element_screenshot ''png'' False, Close_browser, Stop_playwright],
      Inr [9, 12, 7])"
    by (simp add: demo_render [OF truediv_96_presets(5)])
  have b: "take 3 (fst (render_html_file_to_image demo_env ''/home/u/Poster.HTML'' (- 96) 900 1200 ''#poster'')) =
     [Start_playwright, Launch True, New_context 1000 1400 (- 1)]"
    by (simp add: demo_render [OF truediv_96_presets(6)])
  have c: "map_of PPI_OPTIONS ''0 PPI'' = None"
    by (simp add: PPI_OPTIONS_def)
  have d: "fst (process_local_path demo_env demo_world ''/home/u/Poster.HTML'' ''0 PPI'') =
     Inr (Some ''/tmp/tmpa1_Poster_300PPI.png'', Some ''/tmp/tmpa1_Poster_300PPI.png'',
          Export_ok 9 12 300 3 (Some ''/home/u/Poster.HTML''))"
    by code_simp
  from a b c d show ?thesis by blast
qed


text \<open>
  Claim C7. For a path box that is not blank, with \<open>p\<close> the stripped and expanded path:
  if \<open>p\<close> does not exist, both operations on a local path return the not-found status
  for \<open>p\<close>, whatever its extension; if \<open>p\<close> exists and its lower-cased text ends with
  neither \<open>.html\<close> nor \<open>.htm\<close>, both return the status asking for an HTML file. In both
  cases the world is returned as it was: no call of the browser has been made.
\<close>

theorem local_path_is_checked_before_rendering:
  assumes "strip local_path \<noteq> []"
  shows "(\<not> path_exists e (expanduser e (strip local_path)) \<longrightarrow>
            process_local_path e w local_path ppi_choice =
              (Inr (None, None, Not_found (expanduser e (strip local_path))), w) \<and>
            preview_local_path e w local_path =
              (Inr (None, Not_found (expanduser e (strip local_path))), w)) \<and>
         (path_exists e (expanduser e (strip local_path)) \<and>
          \<not> endswith_any (lower (expanduser e (strip local_path))) [''.html'', ''.htm''] \<longrightarrow>
            process_local_path e w local_path ppi_choice = (Inr (None, None, Need_html), w) \<and>
            preview_local_path e w local_path = (Inr (None, Need_html), w))"
  using assms by (simp add: process_local_path_def preview_local_path_def Let_def)

theorem local_path_is_checked_before_rendering_witness:
  "preview_local_path demo_env demo_world '' /home/u/missing.html '' =
     (Inr (None, Not_found ''/home/u/missing.html''), demo_world) \<and>
   process_local_path demo_env demo_world padded_notes ''bogus'' =
     (Inr (None, None, Need_html), demo_world)"
proof -
  have s1: "strip '' /home/u/missing.html '' = ''/home/u/missing.html''"
    and s2: "strip padded_notes = ''/home/u/notes.txt''"
    by code_simp+
  have x: "expanduser demo_env = (\<lambda>p. p)"
    "\<not> path_exists demo_env ''/home/u/missing.html''"
    "path_exists demo_env ''/home/u/notes.txt''"
    by (simp_all add: demo_env_def)
  have l: "\<not> endswith_any (lower ''/home/u/notes.txt'') [''.html'', ''.htm'']"
    by code_simp
  from local_path_is_checked_before_rendering
         [of "'' /home/u/missing.html ''" demo_env demo_world "''bogus''"]
       local_path_is_checked_before_rendering
         [of padded_notes demo_env demo_world "''bogus''"]
  show ?thesis
    by (simp add: s1 s2 x l)
qed

lemma named_temporary_file_dirs [simp]:
  "dirs (snd (named_temporary_file e w sfx d)) = dirs w"
  by (simp add: named_temporary_file_def split: option.splits)

lemma log_steps_fields [simp]:
  "dirs (log_steps w tr) = dirs w" "files (log_steps w tr) = files w"
  "browser_log (log_steps w tr) = browser_log w @ tr"
  by (simp_all add: log_steps_def)

lemma preview_local_body_log:
  "browser_log (snd (preview_local_body e w p)) =
     browser_log w @ fst (sync_render_html_file_to_image e p 72)"
  by (simp add: preview_local_body_def split: prod.splits sum.splits)
     (metis named_temporary_file_log log_steps_fields(3) snd_conv)

lemma preview_local_path_log:
  "browser_log (snd (preview_local_path e w lp)) =
     (if strip lp \<noteq> [] \<and> path_exists e (expanduser e (strip lp)) \<and>
         endswith_any (lower (expanduser e (strip lp))) [''.html'', ''.htm'']
      then browser_log w @ fst (sync_render_html_file_to_image e (expanduser e (strip lp)) 72)
      else browser_log w)"
  using preview_local_body_log [of e w "expanduser e (strip lp)"]
  by (auto simp: preview_local_path_def Let_def split: prod.splits sum.splits)

lemma preview_zip_body_log:
  assumes "endswith (lower zp) ''.zip''" and "extract_zip_to_temp e w zp = (Inr (d, html), w1)"
  shows "browser_log (snd (snd (preview_zip_body e w zp))) =
           browser_log w @ fst (sync_render_html_file_to_image e html 72)"
proof -
  have l1: "browser_log w1 = browser_log w"
    using extract_zip_to_temp_log [of e w zp] assms(2) by simp
  obtain tr r where rn: "sync_render_html_file_to_image e html 72 = (tr, r)"
    by (cases "sync_render_html_file_to_image e html 72")
  have "browser_log (snd (snd (preview_zip_body e w zp))) = browser_log w @ tr"
  proof (cases r)
    case (Inl err)
    then show ?thesis using assms rn l1 by (simp add: preview_zip_body_def)
  next
    case (Inr image_bytes)
    obtain y w2 where nt: "named_temporary_file e (log_steps w1 tr) ''_preview.png'' image_bytes = (y, w2)"
      by (cases "named_temporary_file e (log_steps w1 tr) ''_preview.png'' image_bytes")
    then have "browser_log w2 = browser_log w1 @ tr"
      using named_temporary_file_log [of e "log_steps w1 tr" "''_preview.png''" image_bytes]
      by simp
    then show ?thesis using assms rn l1 Inr nt
      by (cases y) (simp_all add: preview_zip_body_def)
  qed
  then show ?thesis using rn by simp
qed

lemma preview_zip_upload_log:
  assumes "endswith (lower zp) ''.zip''" and "extract_zip_to_temp e w zp = (Inr (d, html), w1)"
  shows "browser_log (snd (preview_zip_upload e w (Some zp))) =
           browser_log w @ fst (sync_render_html_file_to_image e html 72)"
proof -
  obtain td out w' where b: "preview_zip_body e w zp = (td, out, w')"
    by (cases "preview_zip_body e w zp") auto
  have "browser_log (snd (preview_zip_upload e w (Some zp))) = browser_log w'"
    using b cleanup_log [of e w' td] cleanup_returns [of e w' td]
    by (cases "cleanup e w' td") (simp add: preview_zip_upload_def)
  then show ?thesis using preview_zip_body_log [OF assms] b by simp
qed

lemma preview_zip_upload_no_render:
  assumes "\<not> endswith (lower zp) ''.zip'' \<or> isl (fst (extract_zip_to_temp e w zp))"
  shows "browser_log (snd (preview_zip_upload e w (Some zp))) = browser_log w"
proof -
  obtain td out w' where b: "preview_zip_body e w zp = (td, out, w')"
    by (cases "preview_zip_body e w zp") auto
  have l: "browser_log (snd (preview_zip_upload e w (Some zp))) = browser_log w'"
    using b cleanup_log [of e w' td] cleanup_returns [of e w' td]
    by (cases "cleanup e w' td") (simp add: preview_zip_upload_def)
  obtain x w1 where ex: "extract_zip_to_temp e w zp = (x, w1)"
    by (cases "extract_zip_to_temp e w zp")
  then have "browser_log w1 = browser_log w"
    using extract_zip_to_temp_log [of e w zp] by simp
  with assms b ex have "browser_log w' = browser_log w"
    by (cases x) (auto simp: preview_zip_body_def split: if_splits)
  with l show ?thesis by simp
qed

text \<open>
  Claim C10. The four events that preview pass the path box or the upload alone, so
  their outcome is the same whatever the density drop-down holds. A preview of a local
  path that passes the checks, and a preview of an archive that extracts, add to the log
  of the browser exactly the log of one render at density 72, with the default size and
  selector; any other preview adds nothing.
\<close>

theorem preview_renders_at_72:
  "on_event e w (u\<lparr>ppi_dropdown := c\<rparr>) Local_preview_click = on_event e w u Local_preview_click \<and>
   on_event e w (u\<lparr>ppi_dropdown := c\<rparr>) Local_path_submit = on_event e w u Local_path_submit \<and>
   on_event e w (u\<lparr>ppi_dropdown := c\<rparr>) Zip_preview_click = on_event e w u Zip_preview_click \<and>
   on_event e w (u\<lparr>ppi_dropdown := c\<rparr>) Zip_input_change = on_event e w u Zip_input_change \<and>
   browser_log (snd (preview_local_path e w local_path)) =
     (if strip local_path \<noteq> [] \<and> path_exists e (expanduser e (strip local_path)) \<and>
         endswith_any (lower (expanduser e (strip local_path))) [''.html'', ''.htm'']
      then browser_log w @
           fst (render_html_file_to_image e (expanduser e (strip local_path)) 72
                  DEFAULT_WIDTH DEFAULT_HEIGHT ''#poster'')
      else browser_log w) \<and>
   (endswith (lower file_path) ''.zip'' \<and>
    extract_zip_to_temp e w file_path = (Inr (d, html), w1) \<longrightarrow>
      browser_log (snd (preview_zip_upload e w (Some file_path))) =
        browser_log w @
        fst (render_html_file_to_image e html 72 DEFAULT_WIDTH DEFAULT_HEIGHT ''#poster'')) \<and>
   (\<not> endswith (lower file_path) ''.zip'' \<or> isl (fst (extract_zip_to_temp e w file_path)) \<longrightarrow>
      browser_log (snd (preview_zip_upload e w (Some file_path))) = browser_log w)"
  using preview_local_path_log [of e w local_path]
    preview_zip_upload_log [of file_path e w d html w1]
    preview_zip_upload_no_render [of file_path e w]
  by (simp add: sync_render_html_file_to_image_def)

theorem preview_renders_at_72_witness:
  "browser_log (snd (preview_local_path demo_env demo_world ''/home/u/Poster.HTML'')) =
     [Start_playwright, Launch True, New_context 1000 1400 (3 / 4), New_page,
      Goto ''file:///home/u/Poster.HTML'' ''networkidle'', Add_style_tag snapshot_css,
      Wait_for_timeout 2000, Evaluate ''document.fonts.ready'', Query_selector ''#poster'',
      Element_screenshot ''png'' False, Close_browser, Stop_playwright] \<and>
   browser_log (snd (preview_zip_upload demo_env demo_world (Some ''/up/site.zip''))) =
     [Start_playwright, Launch True, New_context 1000 1400 (3 / 4), New_page,
      Goto ''file:///tmp/poster_export_a1/report.html'' ''networkidle'',
      Add_style_tag snapshot_css, Wait_for_timeout 2000, Evaluate ''document.fonts.ready'',
      Query_selector ''#poster'', Element_screenshot ''png'' False, Close_browser,
      Stop_playwright]"
proof -
  have s: "strip ''/home/u/Poster.HTML'' = ''/home/u/Poster.HTML''"
    by code_simp
  have x: "expanduser demo_env = (\<lambda>p. p)" "path_exists demo_env ''/home/u/Poster.HTML''"
    "browser_log demo_world = []"
    by (simp_all add: demo_env_def demo_world_def)
  have l: "endswith_any (lower ''/home/u/Poster.HTML'') [''.html'', ''.htm'']"
    "endswith (lower ''/up/site.zip'') ''.zip''"
    by code_simp+
  from preview_renders_at_72
         [where e = demo_env and w = demo_world and local_path = "''/home/u/Poster.HTML''"
            and file_path = "''/up/site.zip''" and d = "''/tmp/poster_export_a1''"
            and html = "''/tmp/poster_export_a1/report.html''"
            and ?w1.0 = "demo_world\<lparr>dirs := {''/tmp/poster_export_a1''}\<rparr>"]
  show ?thesis
    by (simp add: s x l demo_extract demo_render [OF truediv_96_presets(1)]
        DEFAULT_WIDTH_def DEFAULT_HEIGHT_def)
qed

section \<open>Cleanup of the scratch directory\<close>

lemma extract_zip_to_temp_fresh:
  assumes "extract_zip_to_temp e w zp = (Inr (d, html), w1)"
  shows "d \<notin> dirs w \<and> dirs w1 = insert d (dirs w) \<and> files w1 = files w"
  using assms
  by (auto simp: extract_zip_to_temp_def mkdtemp_def find_Some_iff
      split: option.splits sum.splits)

lemma export_zip_body_extracted:
  assumes "extract_zip_to_temp e w zp = (Inr (d, html), w1)" and "endswith (lower zp) ''.zip''"
  shows "\<exists>out w'. export_zip_body e w zp c = (Some d, out, w') \<and> dirs w' = dirs w1"
proof -
  obtain tr r where rn: "sync_render_html_file_to_image e html (get_ppi c) = (tr, r)"
    by (cases "sync_render_html_file_to_image e html (get_ppi c)")
  show ?thesis
  proof (cases r)
    case (Inl err)
    then show ?thesis using assms rn by (simp add: export_zip_body_def)
  next
    case (Inr image_bytes)
    obtain y w2 where nt:
      "named_temporary_file e (log_steps w1 tr) (''_export_'' @ show_int (get_ppi c) @ ''PPI.png'')
         image_bytes = (y, w2)"
      by (cases "named_temporary_file e (log_steps w1 tr)
                   (''_export_'' @ show_int (get_ppi c) @ ''PPI.png'') image_bytes")
    then have d2: "dirs w2 = dirs w1"
      using named_temporary_file_dirs
              [of e "log_steps w1 tr" "''_export_'' @ show_int (get_ppi c) @ ''PPI.png''" image_bytes]
      by simp
    show ?thesis using assms rn Inr nt d2
      by (cases y) (simp_all add: export_zip_body_def split: sum.splits)
  qed
qed

lemma preview_zip_body_extracted:
  assumes "extract_zip_to_temp e w zp = (Inr (d, html), w1)" and "endswith (lower zp) ''.zip''"
  shows "\<exists>out w'. preview_zip_body e w zp = (Some d, out, w') \<and> dirs w' = dirs w1"
proof -
  obtain tr r where rn: "sync_render_html_file_to_image e html 72 = (tr, r)"
    by (cases "sync_render_html_file_to_image e html 72")
  show ?thesis
  proof (cases r)
    case (Inl err)
    then show ?thesis using assms rn by (simp add: preview_zip_body_def)
  next
    case (Inr image_bytes)
    obtain y w2 where nt:
      "named_temporary_file e (log_steps w1 tr) ''_preview.png'' image_bytes = (y, w2)"
      by (cases "named_temporary_file e (log_steps w1 tr) ''_preview.png'' image_bytes")
    then have d2: "dirs w2 = dirs w1"
      using named_temporary_file_dirs [of e "log_steps w1 tr" "''_preview.png''" image_bytes]
      by simp
    show ?thesis using assms rn Inr nt d2
      by (cases y) (simp_all add: preview_zip_body_def)
  qed
qed

lemma cleanup_removes:
  "\<exists>w'. cleanup e w (Some d) = (Inr (), w') \<and> (\<not> rmtree_fails e d \<longrightarrow> dirs w' = dirs w - {d})"
  by (simp add: cleanup_def rmtree_def)

text \<open>
  Claim C3. Once the archive has been extracted, so that a render is attempted, the
  export and the preview of an archive return a value (no exception leaves them, a
  failure of \<open>shutil.rmtree\<close> included) whatever the render did; and unless the removal
  itself failed, the scratch directory of the extraction is gone afterwards, the
  directories being those that existed before the operation.
\<close>

theorem scratch_directory_removed_after_render:
  assumes "extract_zip_to_temp e w zp = (Inr (d, html), w1)" and "endswith (lower zp) ''.zip''"
  shows "(\<exists>out w'. process_zip_upload e w (Some zp) c = (Inr out, w') \<and>
            (\<not> rmtree_fails e d \<longrightarrow> d \<notin> dirs w' \<and> dirs w' = dirs w)) \<and>
         (\<exists>out w'. preview_zip_upload e w (Some zp) = (Inr out, w') \<and>
            (\<not> rmtree_fails e d \<longrightarrow> d \<notin> dirs w' \<and> dirs w' = dirs w))"
proof -
  from extract_zip_to_temp_fresh [OF assms(1)]
  have fresh: "d \<notin> dirs w" and d1: "dirs w1 = insert d (dirs w)" by simp_all
  from export_zip_body_extracted [OF assms, of c] obtain out wa where
    a: "export_zip_body e w zp c = (Some d, out, wa)" and da: "dirs wa = dirs w1" by blast
  from cleanup_removes [of e wa d] obtain wa' where
    ca: "cleanup e wa (Some d) = (Inr (), wa')" and
    ra: "\<not> rmtree_fails e d \<longrightarrow> dirs wa' = dirs wa - {d}" by blast
  have A: "process_zip_upload e w (Some zp) c = (Inr out, wa')"
    by (simp add: process_zip_upload_def a ca)
  from preview_zip_body_extracted [OF assms] obtain out2 wb where
    b: "preview_zip_body e w zp = (Some d, out2, wb)" and db: "dirs wb = dirs w1" by blast
  from cleanup_removes [of e wb d] obtain wb' where
    cb: "cleanup e wb (Some d) = (Inr (), wb')" and
    rb: "\<not> rmtree_fails e d \<longrightarrow> dirs wb' = dirs wb - {d}" by blast
  have B: "preview_zip_upload e w (Some zp) = (Inr out2, wb')"
    by (simp add: preview_zip_upload_def b cb)
  from fresh d1 da ra have "\<not> rmtree_fails e d \<longrightarrow> d \<notin> dirs wa' \<and> dirs wa' = dirs w" by auto
  moreover from fresh d1 db rb have "\<not> rmtree_fails e d \<longrightarrow> d \<notin> dirs wb' \<and> dirs wb' = dirs w" by auto
  ultimately show ?thesis using A B by blast
qed

lemma broken_extract:
  "extract_zip_to_temp broken_env demo_world ''/up/site.zip'' =
     (Inr (''/tmp/poster_export_a1'', ''/tmp/poster_export_a1/report.html''),
      demo_world\<lparr>dirs := {''/tmp/poster_export_a1''}\<rparr>)"
  by (rule site_extract) (simp_all add: broken_env_def demo_env_def)

theorem scratch_directory_removed_after_render_witness:
  "fst (process_zip_upload broken_env demo_world (Some ''/up/site.zip'') ''bogus'') =
     Inr (None, None, Export_failed (PlaywrightError New_page)) \<and>
   dirs (snd (process_zip_upload broken_env demo_world (Some ''/up/site.zip'') ''bogus'')) = {}"
proof -
  have z: "endswith (lower ''/up/site.zip'') ''.zip''"
    by code_simp
  have r: "\<not> rmtree_fails broken_env ''/tmp/poster_export_a1''"
    by (simp add: broken_env_def demo_env_def)
  have f: "fst (process_zip_upload broken_env demo_world (Some ''/up/site.zip'') ''bogus'') =
     Inr (None, None, Export_failed (PlaywrightError New_page))"
    by code_simp
  from scratch_directory_removed_after_render [OF broken_extract z, of "''bogus''"] r f
  show ?thesis by (auto simp: demo_world_def)
qed

text \<open>
  Outside the claim: when the extraction itself raises after the scratch directory was
  made (here: no candidate in the archive), \<open>temp_dir\<close> was never assigned in the
  operation and the directory stays.
\<close>

lemma scratch_directory_left_when_locate_raises:
  assumes "mkdtemp e w ''poster_export_'' = (Inr d, w1)"
    and "extractall e zp = Inr entries" and "html_files entries = []"
    and "endswith (lower zp) ''.zip''"
  shows "process_zip_upload e w (Some zp) c =
           (Inr (None, None, Export_failed ValueError), w1) \<and> d \<in> dirs w1"
  using assms
  by (auto simp: process_zip_upload_def export_zip_body_def extract_zip_to_temp_def
      select_html_def cleanup_def mkdtemp_def split: option.splits)

section \<open>The exported file\<close>

lemma endswith_append: "endswith (a @ s) s"
  by (simp add: endswith_def)

lemma named_temporary_file_result:
  assumes "named_temporary_file e w sfx data = (Inr p, w')"
  shows "files w p = None \<and> files w' p = Some data \<and> endswith p sfx"
proof -
  let ?cands = "map (\<lambda>r. tmp_root e @ ''/tmp'' @ r @ sfx) (randoms e)"
  from assms obtain q where f: "find (\<lambda>p. files w p = None) ?cands = Some q"
    by (auto simp: named_temporary_file_def split: option.splits)
  with assms have pq: "q = p" and w': "w' = w\<lparr>files := (files w)(p \<mapsto> data)\<rparr>"
    by (auto simp: named_temporary_file_def split: if_splits)
  from f have "files w q = None" and "q \<in> set ?cands"
    by (auto simp: find_Some_iff)
  then obtain r where "q = (tmp_root e @ ''/tmp'' @ r) @ sfx" by auto
  then have "endswith q sfx" using endswith_append by metis
  with \<open>files w q = None\<close> pq w' show ?thesis by simp
qed

lemma export_local_body_ok:
  assumes "export_local_body e w p c = (Inr (Some out, x, st), w')"
  shows "\<exists>tr image_bytes iw ih.
           sync_render_html_file_to_image e p (get_ppi c) = (tr, Inr image_bytes) \<and>
           x = Some out \<and>
           st = Export_ok iw ih (get_ppi c) (length image_bytes) (Some p) \<and>
           files w out = None \<and> files w' out = Some image_bytes \<and>
           endswith out (''_'' @ stem p @ ''_'' @ show_int (get_ppi c) @ ''PPI.png'') \<and>
           pil_size e image_bytes = Inr (iw, ih)"
proof -
  obtain tr r where rn: "sync_render_html_file_to_image e p (get_ppi c) = (tr, r)"
    by (cases "sync_render_html_file_to_image e p (get_ppi c)")
  from assms rn obtain image_bytes where r: "r = Inr image_bytes"
    by (cases r) (auto simp: export_local_body_def)
  let ?sfx = "''_'' @ stem p @ ''_'' @ show_int (get_ppi c) @ ''PPI.png''"
  obtain y w2 where nt: "named_temporary_file e (log_steps w tr) ?sfx image_bytes = (y, w2)"
    by (cases "named_temporary_file e (log_steps w tr) ?sfx image_bytes")
  from assms rn r nt obtain output_path where y: "y = Inr output_path"
    by (cases y) (auto simp: export_local_body_def Let_def)
  from assms rn r nt y obtain iw ih where ps: "pil_size e image_bytes = Inr (iw, ih)"
    by (cases "pil_size e image_bytes") (auto simp: export_local_body_def Let_def)
  from assms rn r nt y ps have
    res: "out = output_path" "x = Some out" "w' = w2"
         "st = Export_ok iw ih (get_ppi c) (length image_bytes) (Some p)"
    by (auto simp: export_local_body_def Let_def)
  from named_temporary_file_result [OF nt [unfolded y]]
  have "files w output_path = None" "files w2 output_path = Some image_bytes"
       "endswith output_path ?sfx"
    by simp_all
  with rn r ps res show ?thesis by auto
qed

lemma process_local_path_ok:
  assumes "process_local_path e w lp c = (Inr (Some out, x, st), w')"
  shows "export_local_body e w (expanduser e (strip lp)) c = (Inr (Some out, x, st), w')"
  using assms
  by (auto simp: process_local_path_def Let_def split: if_splits prod.splits sum.splits)

lemma export_zip_body_ok:
  assumes "export_zip_body e w zp c = (td, (Some out, x, st), w')"
  shows "\<exists>d html w1 tr image_bytes iw ih.
           extract_zip_to_temp e w zp = (Inr (d, html), w1) \<and>
           sync_render_html_file_to_image e html (get_ppi c) = (tr, Inr image_bytes) \<and>
           x = Some out \<and>
           st = Export_ok iw ih (get_ppi c) (length image_bytes) None \<and>
           files w out = None \<and> files w' out = Some image_bytes \<and>
           endswith out (''_export_'' @ show_int (get_ppi c) @ ''PPI.png'') \<and>
           pil_size e image_bytes = Inr (iw, ih)"
proof -
  from assms have zip: "endswith (lower zp) ''.zip''"
    by (auto simp: export_zip_body_def Let_def split: if_splits)
  obtain ex w1 where e1: "extract_zip_to_temp e w zp = (ex, w1)"
    by (cases "extract_zip_to_temp e w zp")
  from assms zip e1 obtain d html where ex: "ex = Inr (d, html)"
    by (cases ex) (auto simp: export_zip_body_def Let_def)
  from extract_zip_to_temp_fresh [OF e1 [unfolded ex]] have f1: "files w1 = files w" by simp
  obtain tr r where rn: "sync_render_html_file_to_image e html (get_ppi c) = (tr, r)"
    by (cases "sync_render_html_file_to_image e html (get_ppi c)")
  from assms zip e1 ex rn obtain image_bytes where r: "r = Inr image_bytes"
    by (cases r) (auto simp: export_zip_body_def)
  let ?sfx = "''_export_'' @ show_int (get_ppi c) @ ''PPI.png''"
  obtain y w2 where nt: "named_temporary_file e (log_steps w1 tr) ?sfx image_bytes = (y, w2)"
    by (cases "named_temporary_file e (log_steps w1 tr) ?sfx image_bytes")
  from assms zip e1 ex rn r nt obtain output_path where y: "y = Inr output_path"
    by (cases y) (auto simp: export_zip_body_def Let_def)
  from assms zip e1 ex rn r nt y obtain iw ih where ps: "pil_size e image_bytes = Inr (iw, ih)"
    by (cases "pil_size e image_bytes") (auto simp: export_zip_body_def Let_def)
  from assms zip e1 ex rn r nt y ps have
    res: "out = output_path" "x = Some out" "w' = w2"
         "st = Export_ok iw ih (get_ppi c) (length image_bytes) None"
    by (auto simp: export_zip_body_def Let_def)
  from named_temporary_file_result [OF nt [unfolded y]] f1
  have "files w output_path = None" "files w2 output_path = Some image_bytes"
       "endswith output_path ?sfx"
    by simp_all
  with e1 ex rn r ps res show ?thesis by auto
qed

lemma cleanup_files [simp]: "files (snd (cleanup e w td)) = files w"
  by (simp add: cleanup_def rmtree_def split: option.splits)

lemma process_zip_upload_ok:
  assumes "process_zip_upload e w (Some zp) c = (Inr (Some out, x, st), w')"
  shows "\<exists>td w2. export_zip_body e w zp c = (td, (Some out, x, st), w2) \<and> files w' = files w2"
proof -
  obtain td o2 w2 where b: "export_zip_body e w zp c = (td, o2, w2)"
    by (cases "export_zip_body e w zp c") auto
  obtain u w3 where cl: "cleanup e w2 td = (u, w3)" by (cases "cleanup e w2 td")
  then have "files w3 = files w2" using cleanup_files [of e w2 td] by simp
  moreover from cl have "u = Inr ()" using cleanup_returns [of e w2 td] by simp
  ultimately show ?thesis using assms b cl
    by (auto simp: process_zip_upload_def)
qed

text \<open>
  Claim C9, as the code has it. An export that returns an output path has written the
  bytes the render returned, unchanged, to a file that did not exist before, and reports
  the width and height the decoder reads from those bytes. For a local path the file
  name ends with \<open>_<stem>_<ppi>PPI.png\<close>, the stem being that of the source path; for an
  archive it ends with \<open>_export_<ppi>PPI.png\<close>, whatever the document is called.
\<close>

theorem export_writes_render_bytes:
  "(process_local_path e w local_path ppi_choice = (Inr (Some out, x, st), w') \<longrightarrow>
      (\<exists>tr image_bytes iw ih.
         sync_render_html_file_to_image e (expanduser e (strip local_path)) (get_ppi ppi_choice) =
           (tr, Inr image_bytes) \<and>
         x = Some out \<and>
         st = Export_ok iw ih (get_ppi ppi_choice) (length image_bytes)
                (Some (expanduser e (strip local_path))) \<and>
         files w out = None \<and> files w' out = Some image_bytes \<and>
         endswith out (''_'' @ stem (expanduser e (strip local_path)) @ ''_'' @
                       show_int (get_ppi ppi_choice) @ ''PPI.png'') \<and>
         pil_size e image_bytes = Inr (iw, ih))) \<and>
   (process_zip_upload e w (Some file_path) ppi_choice = (Inr (Some out, x, st), w') \<longrightarrow>
      (\<exists>d html w1 tr image_bytes iw ih.
         extract_zip_to_temp e w file_path = (Inr (d, html), w1) \<and>
         sync_render_html_file_to_image e html (get_ppi ppi_choice) = (tr, Inr image_bytes) \<and>
         x = Some out \<and>
         st = Export_ok iw ih (get_ppi ppi_choice) (length image_bytes) None \<and>
         files w out = None \<and> files w' out = Some image_bytes \<and>
         endswith out (''_export_'' @ show_int (get_ppi ppi_choice) @ ''PPI.png'') \<and>
         pil_size e image_bytes = Inr (iw, ih)))"
proof (intro conjI impI)
  assume "process_local_path e w local_path ppi_choice = (Inr (Some out, x, st), w')"
  from export_local_body_ok [OF process_local_path_ok [OF this]]
  show "\<exists>tr image_bytes iw ih.
         sync_render_html_file_to_image e (expanduser e (strip local_path)) (get_ppi ppi_choice) =
           (tr, Inr image_bytes) \<and>
         x = Some out \<and>
         st = Export_ok iw ih (get_ppi ppi_choice) (length image_bytes)
                (Some (expanduser e (strip local_path))) \<and>
         files w out = None \<and> files w' out = Some image_bytes \<and>
         endswith out (''_'' @ stem (expanduser e (strip local_path)) @ ''_'' @
                       show_int (get_ppi ppi_choice) @ ''PPI.png'') \<and>
         pil_size e image_bytes = Inr (iw, ih)" .
next
  assume "process_zip_upload e w (Some file_path) ppi_choice = (Inr (Some out, x, st), w')"
  from process_zip_upload_ok [OF this] obtain td w2 where
    b: "export_zip_body e w file_path ppi_choice = (td, (Some out, x, st), w2)" and
    f: "files w' = files w2" by blast
  from export_zip_body_ok [OF b] f
  show "\<exists>d html w1 tr image_bytes iw ih.
         extract_zip_to_temp e w file_path = (Inr (d, html), w1) \<and>
         sync_render_html_file_to_image e html (get_ppi ppi_choice) = (tr, Inr image_bytes) \<and>
         x = Some out \<and>
         st = Export_ok iw ih (get_ppi ppi_choice) (length image_bytes) None \<and>
         files w out = None \<and> files w' out = Some image_bytes \<and>
         endswith out (''_export_'' @ show_int (get_ppi ppi_choice) @ ''PPI.png'') \<and>
         pil_size e image_bytes = Inr (iw, ih)"
    by simp
qed

theorem archive_export_name_has_no_stem:
  "fst (extract_zip_to_temp demo_env demo_world ''/up/site.zip'') =
     Inr (''/tmp/poster_export_a1'', ''/tmp/poster_export_a1/report.html'') \<and>
   stem ''/tmp/poster_export_a1/report.html'' = ''report'' \<and>
   fst (process_zip_upload demo_env demo_world (Some ''/up/site.zip'') (fst (PPI_OPTIONS ! 2))) =
     Inr (Some ''/tmp/tmpa1_export_300PPI.png'', Some ''/tmp/tmpa1_export_300PPI.png'',
          Export_ok 9 12 300 3 None) \<and>
   \<not> contains ''report'' ''/tmp/tmpa1_export_300PPI.png''"
  by code_simp


theorem export_writes_render_bytes_witness:
  "fst (process_local_path demo_env demo_world ''/home/u/Poster.HTML'' ''bogus'') =
     Inr (Some ''/tmp/tmpa1_Poster_300PPI.png'', Some ''/tmp/tmpa1_Poster_300PPI.png'',
          Export_ok 9 12 300 3 (Some ''/home/u/Poster.HTML'')) \<and>
   files (snd (process_local_path demo_env demo_world ''/home/u/Poster.HTML'' ''bogus''))
     ''/tmp/tmpa1_Poster_300PPI.png'' = Some [9, 12, 7]"
proof -
  let ?run = "process_local_path demo_env demo_world ''/home/u/Poster.HTML'' ''bogus''"
  have f: "fst ?run =
     Inr (Some ''/tmp/tmpa1_Poster_300PPI.png'', Some ''/tmp/tmpa1_Poster_300PPI.png'',
          Export_ok 9 12 300 3 (Some ''/home/u/Poster.HTML''))"
    by code_simp
  then have h: "?run =
     (Inr (Some ''/tmp/tmpa1_Poster_300PPI.png'', Some ''/tmp/tmpa1_Poster_300PPI.png'',
           Export_ok 9 12 300 3 (Some ''/home/u/Poster.HTML'')), snd ?run)"
    by (metis prod.collapse)
  have s: "strip ''/home/u/Poster.HTML'' = ''/home/u/Poster.HTML''"
    by code_simp
  have p: "expanduser demo_env (strip ''/home/u/Poster.HTML'') = ''/home/u/Poster.HTML''"
    by (simp add: demo_env_def s)
  have g: "get_ppi ''bogus'' = 300"
    by (rule get_ppi_default) (simp add: PPI_OPTIONS_def)
  have r: "snd (sync_render_html_file_to_image demo_env ''/home/u/Poster.HTML'' (get_ppi ''bogus''))
             = Inr [9, 12, 7]"
    by (simp add: sync_render_html_file_to_image_def g demo_render [OF truediv_96_presets(3)])
  note T = export_writes_render_bytes
         [where e = demo_env and w = demo_world and local_path = "''/home/u/Poster.HTML''"
            and ppi_choice = "''bogus''" and out = "''/tmp/tmpa1_Poster_300PPI.png''"
            and x = "Some ''/tmp/tmpa1_Poster_300PPI.png''"
            and st = "Export_ok 9 12 300 3 (Some ''/home/u/Poster.HTML'')"
            and w' = "snd ?run"]
  from T [THEN conjunct1, rule_format, OF h] obtain tr image_bytes where
    "sync_render_html_file_to_image demo_env
        (expanduser demo_env (strip ''/home/u/Poster.HTML'')) (get_ppi ''bogus'') =
       (tr, Inr image_bytes)"
    "files (snd ?run) ''/tmp/tmpa1_Poster_300PPI.png'' = Some image_bytes"
    by (elim exE conjE)
  then have "\<exists>tr image_bytes.
          sync_render_html_file_to_image demo_env ''/home/u/Poster.HTML'' (get_ppi ''bogus'') =
            (tr, Inr image_bytes) \<and>
          files (snd ?run) ''/tmp/tmpa1_Poster_300PPI.png'' = Some image_bytes"
    unfolding p by (intro exI conjI)
  with r f show ?thesis by auto
qed

end
